theory Spec2Isabelle
  imports Main "HOL-Library.AList"
begin

section \<open>JavaScript values as the console sees them\<close>

text \<open>
  Everything the console stores comes out of \<^verbatim>\<open>res.json()\<close> or is a literal of
  \<^verbatim>\<open>App.jsx\<close>. A value is one of the JSON shapes plus \<^verbatim>\<open>undefined\<close>, which a
  property read produces. \<open>Num k\<close> is the number whose value is the integer \<open>k\<close>, as
  the backend's counters are; numbers with a fractional part are left out. An object is
  the list of its own properties, keys distinct, as \<^verbatim>\<open>JSON.parse\<close> builds it; none of
  its properties is callable.
\<close>

datatype js_value =
    Undefined
  | Null
  | Bool bool
  | Num int
  | Str string
  | Arr "js_value list"
  | Obj "(string \<times> js_value) list"

text \<open>The three kinds of exception the console can meet, each with its \<^verbatim>\<open>message\<close>.\<close>

datatype js_error =
    Error (message: string)
  | TypeError (message: string)
  | SyntaxError (message: string)

text \<open>Truthiness, as \<^verbatim>\<open>if (x)\<close> and \<^verbatim>\<open>x || y\<close> test it.\<close>

fun truthy :: "js_value \<Rightarrow> bool" where
  "truthy Undefined = False"
| "truthy Null = False"
| "truthy (Bool b) = b"
| "truthy (Num n) = (n \<noteq> 0)"
| "truthy (Str s) = (s \<noteq> [])"
| "truthy (Arr xs) = True"
| "truthy (Obj fs) = True"

definition or_else :: "js_value \<Rightarrow> js_value \<Rightarrow> js_value" where
  "or_else a b = (if truthy a then a else b)"

text \<open>
  The decimal numeral of a natural number, most significant digit first, and of an
  integer, with a minus sign when it is negative.
\<close>

definition digit_char :: "nat \<Rightarrow> char" where
  "digit_char d = ''0123456789'' ! d"

fun decimal_digits :: "nat \<Rightarrow> string \<Rightarrow> string" where
  "decimal_digits n later =
     (if 10 \<le> n then decimal_digits (n div 10) (digit_char (n mod 10) # later)
      else digit_char n # later)"

declare decimal_digits.simps [simp del]

definition render_nat :: "nat \<Rightarrow> string" where
  "render_nat n = decimal_digits n []"

definition render_int :: "int \<Rightarrow> string" where
  "render_int i = (if 0 \<le> i then render_nat (nat i) else CHR ''-'' # render_nat (nat (- i)))"

text \<open>
  The number a string of decimal digits denotes, read off the character codes: the
  yardstick the numerals above are measured against.
\<close>

definition decimal_value :: "string \<Rightarrow> nat" where
  "decimal_value ds = foldl (\<lambda>a c. 10 * a + (of_char c - 48)) 0 ds"

fun join_comma :: "string list \<Rightarrow> string" where
  "join_comma [] = []"
| "join_comma [s] = s"
| "join_comma (s # t # ss) = s @ '','' @ join_comma (t # ss)"

section \<open>The world: view state, the requests sent, the browser's timers\<close>

text \<open>
  What \<^verbatim>\<open>fetch\<close> is called with. The body is the value handed to
  \<^verbatim>\<open>JSON.stringify\<close>; a request without a method is a GET.
\<close>

record request =
  req_url :: string
  req_method :: "string option"
  req_body :: "js_value option"
  req_headers :: "(string \<times> string) list"

text \<open>The second argument of \<^verbatim>\<open>api\<close>; every field may be absent.\<close>

record opts =
  opt_method :: "string option"
  opt_body :: "js_value option"
  opt_headers :: "(string \<times> string) list option"

text \<open>
  What \<^verbatim>\<open>fetch\<close> resolves to: \<^verbatim>\<open>res.status\<close>, \<^verbatim>\<open>res.statusText\<close>, and what
  \<^verbatim>\<open>res.json()\<close> gives, the parsed body or the message of the SyntaxError it rejects
  with. \<^verbatim>\<open>res.ok\<close> is the browser's reading of the status: true exactly for 200 to 299.
  \<^verbatim>\<open>fetch\<close> itself rejects with a TypeError when no response arrives.
\<close>

record response =
  resp_status :: nat
  resp_statusText :: string
  resp_json :: "string + js_value"

definition resp_ok :: "response \<Rightarrow> bool" where
  "resp_ok res = (200 \<le> resp_status res \<and> resp_status res \<le> 299)"

datatype fetch_result = Rejected string | Response response

text \<open>
  The surroundings of the component: the build-time setting of the backend address, the
  backend (its answer may depend on every request sent before), and what is the
  engine's own: the text it puts into the TypeError of a property read on \<^verbatim>\<open>null\<close> or
  \<^verbatim>\<open>undefined\<close>, the text it puts into the TypeError of a value that cannot be turned
  into a string, and what it prints for an integer of magnitude \<open>2 ^ 53\<close> or more
  (digits rounded to the nearest double, exponent notation from \<open>10 ^ 21\<close> on).
\<close>

record env =
  VITE_BACKEND_URL :: "string option"
  respond :: "request list \<Rightarrow> request \<Rightarrow> fetch_result"
  nullish_read_message :: "js_value \<Rightarrow> string \<Rightarrow> string"
  to_primitive_message :: "js_value \<Rightarrow> string"
  large_number_string :: "int \<Rightarrow> string"

text \<open>
  \<^verbatim>\<open>${k}\<close> for a number inside a template literal: an integer below \<open>2 ^ 53\<close> in
  magnitude prints as its decimal numeral.
\<close>

definition number_string :: "env \<Rightarrow> int \<Rightarrow> string" where
  "number_string en k = (if \<bar>k\<bar> < 2 ^ 53 then render_int k else large_number_string en k)"

text \<open>The first throw of a list of conversions, or all their results.\<close>

fun all_strings :: "(js_error + string) list \<Rightarrow> js_error + string list" where
  "all_strings [] = Inr []"
| "all_strings (Inl e # rs) = Inl e"
| "all_strings (Inr s # rs) = (case all_strings rs of Inl e \<Rightarrow> Inl e | Inr ss \<Rightarrow> Inr (s # ss))"

text \<open>
  \<^verbatim>\<open>${v}\<close> for a value inside a template literal: the string inserted, or the
  TypeError thrown. An array joins its elements with commas, \<^verbatim>\<open>null\<close> and
  \<^verbatim>\<open>undefined\<close> elements printing as nothing, and throws where an element throws. An
  object prints through \<^verbatim>\<open>Object.prototype.toString\<close> unless it has a property
  \<^verbatim>\<open>toString\<close> of its own: that one is not callable, \<^verbatim>\<open>valueOf\<close> (its own, not
  callable, or the inherited one, which returns the object) yields no primitive either,
  and the conversion throws.
\<close>

fun to_string :: "env \<Rightarrow> js_value \<Rightarrow> js_error + string" where
  "to_string en Undefined = Inr ''undefined''"
| "to_string en Null = Inr ''null''"
| "to_string en (Bool b) = Inr (if b then ''true'' else ''false'')"
| "to_string en (Num k) = Inr (number_string en k)"
| "to_string en (Str s) = Inr s"
| "to_string en (Arr xs) =
     (case all_strings
             (map (\<lambda>x. if x = Null \<or> x = Undefined then Inr [] else to_string en x) xs) of
        Inl e \<Rightarrow> Inl e
      | Inr ss \<Rightarrow> Inr (join_comma ss))"
| "to_string en (Obj fs) =
     (if ''toString'' \<in> fst ` set fs then Inl (TypeError (to_primitive_message en (Obj fs)))
      else Inr ''[object Object]'')"

record form_draft =
  from_email :: string
  subject :: string
  body :: string

text \<open>
  The \<^verbatim>\<open>useState\<close> cells and the \<^verbatim>\<open>useRef\<close> cell of \<^verbatim>\<open>App\<close>, then the requests
  sent so far (oldest first), the interval handles the browser holds active, and the
  next handle \<^verbatim>\<open>setInterval\<close> will return.
\<close>

record world =
  loading :: bool
  seeded :: bool
  logs :: js_value
  analytics :: js_value
  statusMsg :: string
  agentConfig :: js_value
  agentStatus :: js_value
  gmailQueue :: js_value
  autoRun :: bool
  intervalRef :: "nat option"
  form :: form_draft
  requests :: "request list"
  timers :: "nat set"
  next_handle :: nat

text \<open>
  An \<^verbatim>\<open>async\<close> function: it runs from a world to a world and either returns
  (\<open>Inr\<close>) or throws (\<open>Inl\<close>).
\<close>

type_synonym 'a async = "world \<Rightarrow> (js_error + 'a) \<times> world"

definition resolved :: "'a \<Rightarrow> 'a async" where
  "resolved v w = (Inr v, w)"

definition and_then :: "'a async \<Rightarrow> ('a \<Rightarrow> 'b async) \<Rightarrow> 'b async" where
  "and_then m f w = (case m w of (Inl e, w') \<Rightarrow> (Inl e, w') | (Inr v, w') \<Rightarrow> f v w')"

definition try_catch :: "'a async \<Rightarrow> (js_error \<Rightarrow> 'a async) \<Rightarrow> 'a async" where
  "try_catch m h w = (case m w of (Inl e, w') \<Rightarrow> h e w' | (Inr v, w') \<Rightarrow> (Inr v, w'))"

definition try_finally :: "'a async \<Rightarrow> unit async \<Rightarrow> 'a async" where
  "try_finally m fin w =
     (case m w of (r, w') \<Rightarrow>
        (case fin w' of (Inl e, w'') \<Rightarrow> (Inl e, w'') | (Inr u, w'') \<Rightarrow> (r, w'')))"

text \<open>Statements one after the other; a throw skips the rest.\<close>

fun block :: "unit async list \<Rightarrow> unit async" where
  "block [] = resolved ()"
| "block (m # ms) = and_then m (\<lambda>u. block ms)"

definition when_do :: "bool \<Rightarrow> unit async \<Rightarrow> unit async" where
  "when_do c m = (if c then m else resolved ())"

text \<open>\<^verbatim>\<open>p.catch(() => v)\<close>\<close>

definition catch_value :: "'a async \<Rightarrow> 'a \<Rightarrow> 'a async" where
  "catch_value m v = try_catch m (\<lambda>e. resolved v)"

text \<open>
  \<^verbatim>\<open>Promise.all([p, q])\<close>: both calls are started, in this order, whatever the other
  does; the pair resolves when both did and rejects when one rejected.
\<close>

definition promise_all2 :: "'a async \<Rightarrow> 'b async \<Rightarrow> ('a \<times> 'b) async" where
  "promise_all2 p q w =
     (case p w of (r1, w1) \<Rightarrow>
        (case q w1 of (r2, w2) \<Rightarrow>
           (case r1 of
              Inl e \<Rightarrow> (Inl e, w2)
            | Inr a \<Rightarrow> (case r2 of Inl e \<Rightarrow> (Inl e, w2) | Inr b \<Rightarrow> (Inr (a, b), w2)))))"

text \<open>
  \<^verbatim>\<open>v.name\<close> for the names the source reads (\<^verbatim>\<open>items\<close>, \<^verbatim>\<open>processed\<close>), neither of
  which a string, an array, a number or a boolean has of its own. Reading a property
  of \<^verbatim>\<open>null\<close> or \<^verbatim>\<open>undefined\<close> throws.
\<close>

definition read_prop :: "env \<Rightarrow> js_value \<Rightarrow> string \<Rightarrow> js_error + js_value" where
  "read_prop en v name =
     (case v of
        Undefined \<Rightarrow> Inl (TypeError (nullish_read_message en v name))
      | Null \<Rightarrow> Inl (TypeError (nullish_read_message en v name))
      | Obj fs \<Rightarrow> Inr (case map_of fs name of None \<Rightarrow> Undefined | Some x \<Rightarrow> x)
      | _ \<Rightarrow> Inr Undefined)"

definition get_prop :: "env \<Rightarrow> js_value \<Rightarrow> string \<Rightarrow> js_value async" where
  "get_prop en v name w = (read_prop en v name, w)"

text \<open>The conversion of a value inside a template literal, as a step of a call.\<close>

definition interpolate :: "env \<Rightarrow> js_value \<Rightarrow> string async" where
  "interpolate en v w = (to_string en v, w)"

section \<open>Transport client\<close>

text \<open>\<^verbatim>\<open>const BACKEND_URL = import.meta.env.VITE_BACKEND_URL || 'http://localhost:8000'\<close>\<close>

definition BACKEND_URL :: "env \<Rightarrow> string" where
  "BACKEND_URL en =
     (case VITE_BACKEND_URL en of
        None \<Rightarrow> ''http://localhost:8000''
      | Some u \<Rightarrow> if u = [] then ''http://localhost:8000'' else u)"

text \<open>
  \<^verbatim>\<open>{ 'Content-Type': 'application/json', ...(opts.headers || {}) }\<close>: the caller's
  entries are written over the default one.
\<close>

definition merged_headers :: "(string \<times> string) list option \<Rightarrow> (string \<times> string) list" where
  "merged_headers hs =
     fold (\<lambda>(k, v). AList.update k v) (case hs of None \<Rightarrow> [] | Some xs \<Rightarrow> xs)
       [(''Content-Type'', ''application/json'')]"

definition fetch_request :: "env \<Rightarrow> string \<Rightarrow> opts \<Rightarrow> request" where
  "fetch_request en path os =
     \<lparr> req_url = BACKEND_URL en @ path,
       req_method = opt_method os,
       req_body = opt_body os,
       req_headers = merged_headers (opt_headers os) \<rparr>"

definition fetch :: "env \<Rightarrow> request \<Rightarrow> world \<Rightarrow> fetch_result \<times> world" where
  "fetch en rq w = (respond en (requests w) rq, w\<lparr>requests := requests w @ [rq]\<rparr>)"

text \<open>
  What becomes of the call once \<^verbatim>\<open>fetch\<close> has settled: a rejection is thrown on, a
  response that is not \<^verbatim>\<open>ok\<close> throws an \<^verbatim>\<open>Error\<close> whose message is \<^verbatim>\<open>${res.status} ${res.statusText}\<close>,
  and only then \<^verbatim>\<open>res.json()\<close> is returned.
\<close>

definition settle :: "fetch_result \<Rightarrow> js_error + js_value" where
  "settle r =
     (case r of
        Rejected msg \<Rightarrow> Inl (TypeError msg)
      | Response res \<Rightarrow>
          if \<not> resp_ok res
          then Inl (Error (render_nat (resp_status res) @ '' '' @ resp_statusText res))
          else (case resp_json res of
                  Inl msg \<Rightarrow> Inl (SyntaxError msg)
                | Inr v \<Rightarrow> Inr v))"

definition api :: "env \<Rightarrow> string \<Rightarrow> opts \<Rightarrow> js_value async" where
  "api en path os w =
     (case fetch en (fetch_request en path os) w of (r, w') \<Rightarrow> (settle r, w'))"

text \<open>
  The outcome of \<^verbatim>\<open>api(path, opts)\<close> when the requests in \<open>history\<close> went before it.
\<close>

definition api_outcome :: "env \<Rightarrow> request list \<Rightarrow> string \<Rightarrow> opts \<Rightarrow> js_error + js_value" where
  "api_outcome en history path os = settle (respond en history (fetch_request en path os))"

definition no_opts :: opts where
  "no_opts = \<lparr> opt_method = None, opt_body = None, opt_headers = None \<rparr>"

definition post_opts :: "js_value option \<Rightarrow> opts" where
  "post_opts b = \<lparr> opt_method = Some ''POST'', opt_body = b, opt_headers = None \<rparr>"

section \<open>State store setters\<close>

definition setLoading :: "bool \<Rightarrow> unit async" where
  "setLoading b w = (Inr (), w\<lparr>loading := b\<rparr>)"

definition setSeeded :: "bool \<Rightarrow> unit async" where
  "setSeeded b w = (Inr (), w\<lparr>seeded := b\<rparr>)"

definition setLogs :: "js_value \<Rightarrow> unit async" where
  "setLogs v w = (Inr (), w\<lparr>logs := v\<rparr>)"

definition setAnalytics :: "js_value \<Rightarrow> unit async" where
  "setAnalytics v w = (Inr (), w\<lparr>analytics := v\<rparr>)"

definition setStatusMsg :: "string \<Rightarrow> unit async" where
  "setStatusMsg s w = (Inr (), w\<lparr>statusMsg := s\<rparr>)"

definition setAgentConfig :: "js_value \<Rightarrow> unit async" where
  "setAgentConfig v w = (Inr (), w\<lparr>agentConfig := v\<rparr>)"

definition setAgentStatus :: "js_value \<Rightarrow> unit async" where
  "setAgentStatus v w = (Inr (), w\<lparr>agentStatus := v\<rparr>)"

definition setGmailQueue :: "js_value \<Rightarrow> unit async" where
  "setGmailQueue v w = (Inr (), w\<lparr>gmailQueue := v\<rparr>)"

definition setForm :: "form_draft \<Rightarrow> world \<Rightarrow> world" where
  "setForm f w = w\<lparr>form := f\<rparr>"

section \<open>Refresher and poller\<close>

definition refreshAll :: "env \<Rightarrow> unit async" where
  "refreshAll en =
     try_finally
       (try_catch
          (block
             [setLoading True,
              and_then
                (promise_all2
                   (catch_value (api en ''/analytics/summary'' no_opts) Null)
                   (catch_value (api en ''/logs'' no_opts) (Arr [])))
                (\<lambda>(an, ls).
                   block [when_do (truthy an) (setAnalytics an),
                          when_do (truthy ls) (setLogs ls)])])
          (\<lambda>e. resolved ()))
       (setLoading False)"

definition loadAgentMeta :: "env \<Rightarrow> unit async" where
  "loadAgentMeta en =
     try_catch
       (and_then
          (promise_all2
             (catch_value (api en ''/agent/config'' no_opts) Null)
             (catch_value (api en ''/agent/status'' no_opts) Null))
          (\<lambda>(cfg, st).
             block [when_do (truthy cfg) (setAgentConfig cfg),
                    when_do (truthy st) (setAgentStatus st)]))
       (\<lambda>e. resolved ())"

definition loadAgentStatus :: "env \<Rightarrow> unit async" where
  "loadAgentStatus en =
     try_catch
       (and_then (api en ''/agent/status'' no_opts) (\<lambda>st. setAgentStatus st))
       (\<lambda>e. resolved ())"

definition pollGmail :: "env \<Rightarrow> unit async" where
  "pollGmail en =
     try_catch
       (and_then (api en ''/gmail/poll'' no_opts) (\<lambda>res.
        and_then (get_prop en res ''items'') (\<lambda>items.
        setGmailQueue (or_else items (Arr [])))))
       (\<lambda>e. setGmailQueue (Arr []))"

section \<open>Actions\<close>

definition handleSeed :: "env \<Rightarrow> unit async" where
  "handleSeed en =
     block
       [setStatusMsg ''Seeding sample vendor requests...'',
        try_catch
          (and_then (api en ''/seed/vendors'' (post_opts (Some (Arr [])))) (\<lambda>ack.
           block [setSeeded True,
                  setStatusMsg ''Seeded sample vendor requests.'',
                  refreshAll en,
                  loadAgentStatus en]))
          (\<lambda>e. setStatusMsg (''Failed to seed: '' @ message e))]"

definition form_json :: "form_draft \<Rightarrow> js_value" where
  "form_json f =
     Obj [(''from_email'', Str (from_email f)), (''subject'', Str (subject f)),
          (''body'', Str (body f))]"

text \<open>The handler closes over the \<^verbatim>\<open>form\<close> of the render it was made in.\<close>

definition handleIngest :: "env \<Rightarrow> form_draft \<Rightarrow> unit async" where
  "handleIngest en f =
     block
       [setStatusMsg ''Ingesting mock email...'',
        try_catch
          (and_then (api en ''/ingest/mock-email'' (post_opts (Some (form_json f)))) (\<lambda>ack.
           block [setStatusMsg ''Email ingested. You can now Process Next.'',
                  refreshAll en,
                  pollGmail en,
                  loadAgentStatus en]))
          (\<lambda>e. setStatusMsg (''Failed to ingest: '' @ message e))]"

definition runOnce :: "env \<Rightarrow> bool \<Rightarrow> unit async" where
  "runOnce en showMsg =
     block
       [when_do showMsg (setStatusMsg ''Processing next email...''),
        try_catch
          (and_then (api en ''/agent/run-once'' (post_opts None)) (\<lambda>res.
           and_then (get_prop en res ''processed'') (\<lambda>processed.
           block [if truthy processed
                  then setStatusMsg ''Processed one email and replied (mock).''
                  else setStatusMsg ''No emails pending.'',
                  refreshAll en,
                  pollGmail en,
                  loadAgentStatus en])))
          (\<lambda>e. setStatusMsg (''Process failed: '' @ message e))]"

definition handleProcess :: "env \<Rightarrow> unit async" where
  "handleProcess en = runOnce en True"

text \<open>
  The argument of the second \<^verbatim>\<open>setStatusMsg\<close> is evaluated inside the \<^verbatim>\<open>try\<close>: reading
  \<^verbatim>\<open>res.processed\<close> and turning it into a string may both throw.
\<close>

definition runLoop :: "env \<Rightarrow> int \<Rightarrow> unit async" where
  "runLoop en steps =
     block
       [setStatusMsg (''Running loop for up to '' @ number_string en steps @ '' steps...''),
        try_catch
          (and_then
             (api en ''/agent/run-loop'' (post_opts (Some (Obj [(''max_steps'', Num steps)]))))
             (\<lambda>res.
           and_then (get_prop en res ''processed'') (\<lambda>processed.
           and_then (interpolate en processed) (\<lambda>shown.
           block [setStatusMsg (''Loop done. Processed '' @ shown @ '' messages.''),
                  refreshAll en,
                  pollGmail en,
                  loadAgentStatus en]))))
          (\<lambda>e. setStatusMsg (''Run-loop failed: '' @ message e))]"

section \<open>The automatic cycle\<close>

text \<open>
  The browser's timer table. \<^verbatim>\<open>setInterval\<close> hands out a fresh handle and holds it
  active; \<^verbatim>\<open>clearInterval\<close> drops a handle, and is silent about one it does not hold.
  Only one callback is ever registered, the tick below, so the table keeps handles only.
\<close>

definition setInterval :: "world \<Rightarrow> nat \<times> world" where
  "setInterval w =
     (next_handle w,
      w\<lparr>timers := insert (next_handle w) (timers w), next_handle := Suc (next_handle w)\<rparr>)"

definition clearInterval :: "nat \<Rightarrow> world \<Rightarrow> world" where
  "clearInterval h w = w\<lparr>timers := timers w - {h}\<rparr>"

text \<open>\<^verbatim>\<open>if (intervalRef.current) clearInterval(intervalRef.current)\<close>\<close>

definition clear_current :: "world \<Rightarrow> world" where
  "clear_current w =
     (case intervalRef w of
        None \<Rightarrow> w
      | Some h \<Rightarrow> if h \<noteq> 0 then clearInterval h w else w)"

text \<open>The body of the effect on \<^verbatim>\<open>[autoRun]\<close>, and the cleanup it returns.\<close>

definition autoRun_effect :: "world \<Rightarrow> world" where
  "autoRun_effect w =
     (if autoRun w
      then (case setInterval (clear_current w) of (h, w') \<Rightarrow> w'\<lparr>intervalRef := Some h\<rparr>)
      else (clear_current w)\<lparr>intervalRef := None\<rparr>)"

definition autoRun_cleanup :: "world \<Rightarrow> world" where
  "autoRun_cleanup w = clear_current w"

text \<open>
  \<^verbatim>\<open>setAutoRun(b)\<close> and the commit that follows it: the effect depends on
  \<^verbatim>\<open>[autoRun]\<close>, so an unchanged value runs nothing; a changed one runs the cleanup of
  the last effect and then the effect.
\<close>

definition setAutoRun :: "bool \<Rightarrow> world \<Rightarrow> world" where
  "setAutoRun b w =
     (if autoRun w = b then w else autoRun_effect (autoRun_cleanup (w\<lparr>autoRun := b\<rparr>)))"

text \<open>
  A call of an async function that is under way: the awaited steps it still has to
  run, first one first. The callback handed to \<^verbatim>\<open>setInterval\<close> awaits four calls.
\<close>

type_synonym task = "unit async list"

definition tick :: "env \<Rightarrow> task" where
  "tick en = [runOnce en False, pollGmail en, refreshAll en, loadAgentStatus en]"

text \<open>The state of \<^verbatim>\<open>App\<close> before its first render, in a browser that holds no timer.\<close>

definition init_world :: world where
  "init_world =
     \<lparr> loading = False, seeded = False, logs = Arr [], analytics = Null, statusMsg = [],
       agentConfig = Null, agentStatus = Null, gmailQueue = Arr [], autoRun = False,
       intervalRef = None,
       form = \<lparr> from_email = ''vendor@example.com'',
                subject = ''What is the status of VR-2025-0012?'',
                body = ''Hi team, could you confirm the status of my vendor registration VR-2025-0012? Thanks.'' \<rparr>,
       requests = [], timers = {}, next_handle = 1 \<rparr>"

text \<open>
  The first commit: the effect on \<^verbatim>\<open>[]\<close> starts three calls without awaiting them,
  the effect on \<^verbatim>\<open>[autoRun]\<close> runs with \<^verbatim>\<open>autoRun = false\<close>.
\<close>

definition mount :: "env \<Rightarrow> world \<times> task list" where
  "mount en = (autoRun_effect init_world, [[refreshAll en], [loadAgentMeta en], [pollGmail en]])"

text \<open>Leaving the page runs the cleanup of the last effect.\<close>

definition unmount :: "world \<Rightarrow> world" where
  "unmount w = autoRun_cleanup w"

datatype button =
    RunOnceBtn | Run10Btn | StartAutoBtn | StopAutoBtn | RefreshQueueBtn
  | SeedBtn | IngestBtn | ProcessNextBtn | RefreshLogsBtn

datatype event =
    Click button
  | EditFromEmail string
  | EditSubject string
  | EditBody string
  | TimerFires nat
  | Resume nat

text \<open>What the \<^verbatim>\<open>onClick\<close> of each button that starts an async call starts.\<close>

definition on_click :: "env \<Rightarrow> button \<Rightarrow> world \<Rightarrow> task" where
  "on_click en b w =
     (case b of
        RunOnceBtn \<Rightarrow> [runOnce en True]
      | Run10Btn \<Rightarrow> [runLoop en 10]
      | RefreshQueueBtn \<Rightarrow> [pollGmail en]
      | SeedBtn \<Rightarrow> [handleSeed en]
      | IngestBtn \<Rightarrow> [handleIngest en (form w)]
      | ProcessNextBtn \<Rightarrow> [handleProcess en]
      | RefreshLogsBtn \<Rightarrow> [refreshAll en]
      | _ \<Rightarrow> [])"

text \<open>
  One turn of the event loop. The console is the world and the calls under way. Start
  Auto and Stop Auto set \<^verbatim>\<open>autoRun\<close>, and the commit runs within the same turn; any
  other click puts the call of its handler under way; an edit replaces the draft; a
  timer fires only while the browser holds its handle, and puts a tick under way; a
  call under way resumes with its next awaited step, and ends there if the step
  throws. The awaited calls of a tick are taken as one step each. Stopping the cycle
  touches no call under way: the source has nothing that aborts one.
\<close>

fun step :: "env \<Rightarrow> event \<Rightarrow> world \<times> task list \<Rightarrow> (world \<times> task list) option" where
  "step en (Click StartAutoBtn) (w, ts) = Some (setAutoRun True w, ts)"
| "step en (Click StopAutoBtn) (w, ts) = Some (setAutoRun False w, ts)"
| "step en (Click b) (w, ts) = Some (w, ts @ [on_click en b w])"
| "step en (EditFromEmail s) (w, ts) = Some (setForm ((form w)\<lparr>from_email := s\<rparr>) w, ts)"
| "step en (EditSubject s) (w, ts) = Some (setForm ((form w)\<lparr>subject := s\<rparr>) w, ts)"
| "step en (EditBody s) (w, ts) = Some (setForm ((form w)\<lparr>body := s\<rparr>) w, ts)"
| "step en (TimerFires h) (w, ts) =
     (if h \<in> timers w then Some (w, ts @ [tick en]) else None)"
| "step en (Resume k) (w, ts) =
     (if k < length ts
      then (case ts ! k of
              [] \<Rightarrow> None
            | m # ms \<Rightarrow>
                (case m w of
                   (Inr u, w') \<Rightarrow> Some (w', ts[k := ms])
                 | (Inl e, w') \<Rightarrow> Some (w', ts[k := []])))
      else None)"

fun run :: "env \<Rightarrow> event list \<Rightarrow> world \<times> task list \<Rightarrow> (world \<times> task list) option" where
  "run en [] s = Some s"
| "run en (ev # evs) s = (case step en ev s of None \<Rightarrow> None | Some s' \<Rightarrow> run en evs s')"

inductive reachable :: "env \<Rightarrow> world \<times> task list \<Rightarrow> bool" for en :: env where
  mounted: "reachable en (mount en)"
| stepped: "reachable en s \<Longrightarrow> step en ev s = Some s' \<Longrightarrow> reachable en s'"

text \<open>The world a call leaves behind.\<close>

definition exec :: "'a async \<Rightarrow> world \<Rightarrow> world" where
  "exec m w = snd (m w)"

text \<open>What the automatic cycle owns: the flag, the ref, the browser's timers.\<close>

definition orch :: "world \<Rightarrow> bool \<times> nat option \<times> nat set \<times> nat" where
  "orch w = (autoRun w, intervalRef w, timers w, next_handle w)"

text \<open>A step that never throws and leaves the automatic cycle alone.\<close>

definition quiet :: "unit async \<Rightarrow> bool" where
  "quiet m = (\<forall>w. fst (m w) = Inr () \<and> orch (exec m w) = orch w)"

text \<open>
  The ref holds a handle exactly while \<^verbatim>\<open>autoRun\<close> is on, and the browser holds that
  handle and no other.
\<close>

definition orch_inv :: "world \<Rightarrow> bool" where
  "orch_inv w =
     ((intervalRef w \<noteq> None) = autoRun w \<and>
      timers w = (case intervalRef w of None \<Rightarrow> {} | Some h \<Rightarrow> {h}) \<and>
      (case intervalRef w of None \<Rightarrow> True | Some h \<Rightarrow> 0 < h \<and> h < next_handle w) \<and>
      0 < next_handle w)"

section \<open>Sample backends\<close>

text \<open>
  A backend at the default address that answers each path with the response the table
  lists for it, whatever went before; a path the table does not list gets no response
  at all, as when the network is down.
\<close>

definition ok_json :: "js_value \<Rightarrow> response" where
  "ok_json v = \<lparr> resp_status = 200, resp_statusText = ''OK'', resp_json = Inr v \<rparr>"

definition unavailable :: response where
  "unavailable =
     \<lparr> resp_status = 503, resp_statusText = ''Service Unavailable'',
       resp_json = Inl ''Unexpected end of JSON input'' \<rparr>"

definition canned :: "(string \<times> response) list \<Rightarrow> env" where
  "canned table =
     \<lparr> VITE_BACKEND_URL = None,
       respond = (\<lambda>history rq.
         case map_of table (drop 21 (req_url rq)) of
           None \<Rightarrow> Rejected ''Failed to fetch''
         | Some r \<Rightarrow> Response r),
       nullish_read_message = (\<lambda>v name.
         ''Cannot read properties of '' @ (if v = Null then ''null'' else ''undefined'') @
         '' (reading '' @ name @ '')''),
       to_primitive_message = (\<lambda>v. ''Cannot convert object to primitive value''),
       large_number_string = (\<lambda>k. ''1e+21'') \<rparr>"

section \<open>What each call comes to\<close>

lemma api_eq:
  "api en path os w =
     (api_outcome en (requests w) path os, w\<lparr>requests := requests w @ [fetch_request en path os]\<rparr>)"
  by (simp add: api_def api_outcome_def fetch_def)

lemmas comb = and_then_def try_catch_def try_finally_def when_do_def catch_value_def
  promise_all2_def resolved_def get_prop_def interpolate_def

lemmas setters = setLoading_def setSeeded_def setLogs_def setAnalytics_def setStatusMsg_def
  setAgentConfig_def setAgentStatus_def setGmailQueue_def

lemma refreshAll_eq:
  "refreshAll en w =
     (Inr (),
      w\<lparr>loading := False,
        requests := requests w @ [fetch_request en ''/analytics/summary'' no_opts,
                                  fetch_request en ''/logs'' no_opts],
        analytics :=
          (case api_outcome en (requests w) ''/analytics/summary'' no_opts of
             Inl e \<Rightarrow> analytics w
           | Inr v \<Rightarrow> if truthy v then v else analytics w),
        logs :=
          (case api_outcome en (requests w @ [fetch_request en ''/analytics/summary'' no_opts])
                  ''/logs'' no_opts of
             Inl e \<Rightarrow> Arr []
           | Inr v \<Rightarrow> if truthy v then v else logs w)\<rparr>)"
  by (simp add: refreshAll_def comb setters api_eq split: sum.splits)

lemma loadAgentMeta_eq:
  "loadAgentMeta en w =
     (Inr (),
      w\<lparr>requests := requests w @ [fetch_request en ''/agent/config'' no_opts,
                                  fetch_request en ''/agent/status'' no_opts],
        agentConfig :=
          (case api_outcome en (requests w) ''/agent/config'' no_opts of
             Inl e \<Rightarrow> agentConfig w
           | Inr v \<Rightarrow> if truthy v then v else agentConfig w),
        agentStatus :=
          (case api_outcome en (requests w @ [fetch_request en ''/agent/config'' no_opts])
                  ''/agent/status'' no_opts of
             Inl e \<Rightarrow> agentStatus w
           | Inr v \<Rightarrow> if truthy v then v else agentStatus w)\<rparr>)"
  by (simp add: loadAgentMeta_def comb setters api_eq split: sum.splits)

lemma loadAgentStatus_eq:
  "loadAgentStatus en w =
     (Inr (),
      w\<lparr>requests := requests w @ [fetch_request en ''/agent/status'' no_opts],
        agentStatus :=
          (case api_outcome en (requests w) ''/agent/status'' no_opts of
             Inl e \<Rightarrow> agentStatus w
           | Inr v \<Rightarrow> v)\<rparr>)"
  by (simp add: loadAgentStatus_def comb setters api_eq split: sum.splits)

lemma pollGmail_eq:
  "pollGmail en w =
     (Inr (),
      w\<lparr>requests := requests w @ [fetch_request en ''/gmail/poll'' no_opts],
        gmailQueue :=
          (case api_outcome en (requests w) ''/gmail/poll'' no_opts of
             Inl e \<Rightarrow> Arr []
           | Inr res \<Rightarrow>
               (case read_prop en res ''items'' of
                  Inl e \<Rightarrow> Arr []
                | Inr items \<Rightarrow> or_else items (Arr [])))\<rparr>)"
  by (simp add: pollGmail_def comb setters api_eq split: sum.splits)


lemma quiet_eq: "quiet m \<Longrightarrow> m w = (Inr (), exec m w)"
  by (simp add: quiet_def exec_def prod_eq_iff)

lemma quiet_orch: "quiet m \<Longrightarrow> orch (exec m w) = orch w"
  by (simp add: quiet_def)

lemma quiet_refreshAll: "quiet (refreshAll en)"
  by (simp add: quiet_def orch_def exec_def refreshAll_eq)

lemma quiet_pollGmail: "quiet (pollGmail en)"
  by (simp add: quiet_def orch_def exec_def pollGmail_eq)

lemma quiet_loadAgentStatus: "quiet (loadAgentStatus en)"
  by (simp add: quiet_def orch_def exec_def loadAgentStatus_eq)

lemma quiet_loadAgentMeta: "quiet (loadAgentMeta en)"
  by (simp add: quiet_def orch_def exec_def loadAgentMeta_eq)

lemmas refresh_ret = quiet_refreshAll [THEN quiet_eq] quiet_pollGmail [THEN quiet_eq]
  quiet_loadAgentStatus [THEN quiet_eq]

lemma refreshAll_requests:
  "requests (exec (refreshAll en) w) =
     requests w @ [fetch_request en ''/analytics/summary'' no_opts, fetch_request en ''/logs'' no_opts]"
  by (simp add: exec_def refreshAll_eq)

lemma pollGmail_requests:
  "requests (exec (pollGmail en) w) = requests w @ [fetch_request en ''/gmail/poll'' no_opts]"
  by (simp add: exec_def pollGmail_eq)

lemma loadAgentStatus_requests:
  "requests (exec (loadAgentStatus en) w) = requests w @ [fetch_request en ''/agent/status'' no_opts]"
  by (simp add: exec_def loadAgentStatus_eq)


lemma handleSeed_eq:
  "handleSeed en w =
     (case api_outcome en (requests w) ''/seed/vendors'' (post_opts (Some (Arr []))) of
        Inl e \<Rightarrow>
          (Inr (),
           w\<lparr>requests := requests w @ [fetch_request en ''/seed/vendors'' (post_opts (Some (Arr [])))],
             statusMsg := ''Failed to seed: '' @ message e\<rparr>)
      | Inr ack \<Rightarrow>
          (Inr (),
           exec (loadAgentStatus en) (exec (refreshAll en)
            (w\<lparr>requests := requests w @ [fetch_request en ''/seed/vendors'' (post_opts (Some (Arr [])))],
               seeded := True, statusMsg := ''Seeded sample vendor requests.''\<rparr>))))"
  by (simp add: handleSeed_def comb setters api_eq refresh_ret split: sum.splits)

lemma handleIngest_eq:
  "handleIngest en f w =
     (case api_outcome en (requests w) ''/ingest/mock-email'' (post_opts (Some (form_json f))) of
        Inl e \<Rightarrow>
          (Inr (),
           w\<lparr>requests := requests w @ [fetch_request en ''/ingest/mock-email'' (post_opts (Some (form_json f)))],
             statusMsg := ''Failed to ingest: '' @ message e\<rparr>)
      | Inr ack \<Rightarrow>
          (Inr (),
           exec (loadAgentStatus en) (exec (pollGmail en) (exec (refreshAll en)
            (w\<lparr>requests := requests w @ [fetch_request en ''/ingest/mock-email'' (post_opts (Some (form_json f)))],
               statusMsg := ''Email ingested. You can now Process Next.''\<rparr>)))))"
  by (simp add: handleIngest_def comb setters api_eq refresh_ret split: sum.splits)

lemma runOnce_eq:
  "runOnce en showMsg w =
     (case api_outcome en (requests w) ''/agent/run-once'' (post_opts None) of
        Inl e \<Rightarrow>
          (Inr (),
           w\<lparr>requests := requests w @ [fetch_request en ''/agent/run-once'' (post_opts None)],
             statusMsg := ''Process failed: '' @ message e\<rparr>)
      | Inr res \<Rightarrow>
          (case read_prop en res ''processed'' of
             Inl e \<Rightarrow>
               (Inr (),
                w\<lparr>requests := requests w @ [fetch_request en ''/agent/run-once'' (post_opts None)],
                  statusMsg := ''Process failed: '' @ message e\<rparr>)
           | Inr processed \<Rightarrow>
               (Inr (),
                exec (loadAgentStatus en) (exec (pollGmail en) (exec (refreshAll en)
                 (w\<lparr>requests := requests w @ [fetch_request en ''/agent/run-once'' (post_opts None)],
                    statusMsg :=
                      (if truthy processed then ''Processed one email and replied (mock).''
                       else ''No emails pending.'')\<rparr>))))))"
  by (simp add: runOnce_def comb setters api_eq refresh_ret split: sum.splits)

lemma runLoop_eq:
  "runLoop en steps w =
     (case api_outcome en (requests w) ''/agent/run-loop''
             (post_opts (Some (Obj [(''max_steps'', Num steps)]))) of
        Inl e \<Rightarrow>
          (Inr (),
           w\<lparr>requests := requests w @
               [fetch_request en ''/agent/run-loop'' (post_opts (Some (Obj [(''max_steps'', Num steps)])))],
             statusMsg := ''Run-loop failed: '' @ message e\<rparr>)
      | Inr res \<Rightarrow>
          (case read_prop en res ''processed'' of
             Inl e \<Rightarrow>
               (Inr (),
                w\<lparr>requests := requests w @
                    [fetch_request en ''/agent/run-loop'' (post_opts (Some (Obj [(''max_steps'', Num steps)])))],
                  statusMsg := ''Run-loop failed: '' @ message e\<rparr>)
           | Inr processed \<Rightarrow>
               (case to_string en processed of
                  Inl e \<Rightarrow>
                    (Inr (),
                     w\<lparr>requests := requests w @
                         [fetch_request en ''/agent/run-loop''
                            (post_opts (Some (Obj [(''max_steps'', Num steps)])))],
                       statusMsg := ''Run-loop failed: '' @ message e\<rparr>)
                | Inr shown \<Rightarrow>
                    (Inr (),
                     exec (loadAgentStatus en) (exec (pollGmail en) (exec (refreshAll en)
                      (w\<lparr>requests := requests w @
                           [fetch_request en ''/agent/run-loop''
                              (post_opts (Some (Obj [(''max_steps'', Num steps)])))],
                         statusMsg := ''Loop done. Processed '' @ shown @ '' messages.''\<rparr>)))))))"
  by (simp add: runLoop_def comb setters api_eq refresh_ret split: sum.splits)

section \<open>Numerals\<close>

lemma decimal_digits_append: "decimal_digits n later = decimal_digits n [] @ later"
proof (induction n arbitrary: later rule: less_induct)
  case (less n)
  show ?case
  proof (cases "10 \<le> n")
    case True
    then have lt: "n div 10 < n"
      by simp
    have "decimal_digits n later = decimal_digits (n div 10) (digit_char (n mod 10) # later)"
      using True by (simp add: decimal_digits.simps [of n])
    also have "\<dots> = decimal_digits (n div 10) [] @ digit_char (n mod 10) # later"
      by (rule less.IH [OF lt])
    also have "\<dots> = (decimal_digits (n div 10) [] @ [digit_char (n mod 10)]) @ later"
      by simp
    also have "decimal_digits (n div 10) [] @ [digit_char (n mod 10)] =
        decimal_digits (n div 10) [digit_char (n mod 10)]"
      by (rule less.IH [OF lt, symmetric])
    also have "\<dots> = decimal_digits n []"
      using True by (simp add: decimal_digits.simps [of n "[]"])
    finally show ?thesis .
  next
    case False
    then show ?thesis
      by (simp add: decimal_digits.simps [of n])
  qed
qed

lemma render_nat_rec:
  "render_nat n =
     (if n < 10 then [digit_char n] else render_nat (n div 10) @ [digit_char (n mod 10)])"
proof (cases "n < 10")
  case True
  then show ?thesis
    by (simp add: render_nat_def decimal_digits.simps [of n])
next
  case False
  then have "render_nat n = decimal_digits (n div 10) [digit_char (n mod 10)]"
    by (simp add: render_nat_def decimal_digits.simps [of n])
  also have "\<dots> = render_nat (n div 10) @ [digit_char (n mod 10)]"
    unfolding render_nat_def by (rule decimal_digits_append)
  finally show ?thesis
    using False by simp
qed

lemma digit_cases: "d < 10 \<Longrightarrow> d \<in> {0, 1, 2, 3, 4, 5, 6, 7, 8, 9::nat}"
  by auto

lemma of_char_digit: "d < 10 \<Longrightarrow> of_char (digit_char d) = (48 + d :: nat)"
  using digit_cases [of d] by (auto simp: digit_char_def)

lemma digit_char_digit: "d < 10 \<Longrightarrow> digit_char d \<in> set ''0123456789''"
  using digit_cases [of d] by (auto simp: digit_char_def)

lemma digit_char_zero: "d < 10 \<Longrightarrow> digit_char d = CHR ''0'' \<Longrightarrow> d = 0"
  using digit_cases [of d] by (auto simp: digit_char_def)

lemma decimal_value_snoc:
  "decimal_value (ds @ [c]) = 10 * decimal_value ds + (of_char c - 48)"
  by (simp add: decimal_value_def)

lemma render_nat_nonempty: "render_nat n \<noteq> []"
  by (subst render_nat_rec) simp

lemma render_nat_value: "decimal_value (render_nat n) = n"
proof (induction n rule: less_induct)
  case (less n)
  show ?case
  proof (cases "n < 10")
    case True
    then show ?thesis
      by (subst render_nat_rec) (simp add: decimal_value_def of_char_digit)
  next
    case False
    then have lt: "n div 10 < n"
      by simp
    have "decimal_value (render_nat n) =
        decimal_value (render_nat (n div 10) @ [digit_char (n mod 10)])"
      using False by (subst render_nat_rec) simp
    also have "\<dots> = 10 * (n div 10) + n mod 10"
      by (simp add: decimal_value_snoc less.IH [OF lt] of_char_digit)
    finally show ?thesis
      by simp
  qed
qed

lemma render_nat_digits: "set (render_nat n) \<subseteq> set ''0123456789''"
proof (induction n rule: less_induct)
  case (less n)
  show ?case
  proof (cases "n < 10")
    case True
    with digit_char_digit [of n] show ?thesis
      by (subst render_nat_rec) simp
  next
    case False
    then have lt: "n div 10 < n"
      by simp
    have m: "digit_char (n mod 10) \<in> set ''0123456789''"
      by (rule digit_char_digit) simp
    from False less.IH [OF lt] m show ?thesis
      by (subst render_nat_rec) simp
  qed
qed

lemma render_nat_leading: "hd (render_nat n) = CHR ''0'' \<Longrightarrow> n = 0"
proof (induction n rule: less_induct)
  case (less n)
  show ?case
  proof (cases "n < 10")
    case True
    with less.prems have "digit_char n = CHR ''0''"
      by (subst (asm) render_nat_rec) simp
    with True show ?thesis
      by (rule digit_char_zero)
  next
    case False
    then have lt: "n div 10 < n"
      by simp
    from False less.prems have "hd (render_nat (n div 10) @ [digit_char (n mod 10)]) = CHR ''0''"
      by (subst (asm) render_nat_rec) simp
    then have "hd (render_nat (n div 10)) = CHR ''0''"
      by (simp add: render_nat_nonempty)
    from less.IH [OF lt this] False show ?thesis
      by simp
  qed
qed

lemma to_string_small: "\<bar>k\<bar> < 2 ^ 53 \<Longrightarrow> to_string en (Num k) = Inr (render_int k)"
  by (simp add: number_string_def)

lemma render_nat_503: "render_nat 503 = ''503''"
  by (simp add: render_nat_def decimal_digits.simps digit_char_def)

section \<open>Transport client: a failure carries the status\<close>

text \<open>
  Claim C8. Whenever the status of the response to a request lies outside 200 to 299,
  \<^verbatim>\<open>api\<close> throws an error whose message is the numeral of the status code, a blank
  and the status text, where the numeral consists of decimal digits only, denotes the
  status code, and has no leading zero; and whenever \<^verbatim>\<open>api\<close> returns a value, the
  response had a status within 200 to 299 and the value is its parsed JSON body. The
  body is never returned on the failure path.
\<close>

theorem C8_api_failure_carries_status:
  "(respond en (requests w) (fetch_request en path os) = Response res \<and>
      (resp_status res < 200 \<or> 299 < resp_status res) \<longrightarrow>
      fst (api en path os w) =
        Inl (Error (render_nat (resp_status res) @ '' '' @ resp_statusText res))
      \<and> decimal_value (render_nat (resp_status res)) = resp_status res
      \<and> set (render_nat (resp_status res)) \<subseteq> set ''0123456789''
      \<and> render_nat (resp_status res) \<noteq> []
      \<and> (hd (render_nat (resp_status res)) = CHR ''0'' \<longrightarrow> resp_status res = 0))
   \<and> (fst (api en path os w) = Inr v \<longrightarrow>
        (\<exists>res'. respond en (requests w) (fetch_request en path os) = Response res' \<and>
                200 \<le> resp_status res' \<and> resp_status res' \<le> 299 \<and> resp_json res' = Inr v))"
proof -
  have thrown: "respond en (requests w) (fetch_request en path os) = Response res \<and>
      (resp_status res < 200 \<or> 299 < resp_status res) \<longrightarrow>
      fst (api en path os w) =
        Inl (Error (render_nat (resp_status res) @ '' '' @ resp_statusText res))"
    by (auto simp: api_def fetch_def settle_def resp_ok_def)
  have returned: "fst (api en path os w) = Inr v \<longrightarrow>
        (\<exists>res'. respond en (requests w) (fetch_request en path os) = Response res' \<and>
                200 \<le> resp_status res' \<and> resp_status res' \<le> 299 \<and> resp_json res' = Inr v)"
    by (auto simp: api_def fetch_def settle_def resp_ok_def
        split: fetch_result.splits sum.splits if_splits)
  note numeral = render_nat_value [of "resp_status res"] render_nat_digits [of "resp_status res"]
    render_nat_nonempty [of "resp_status res"]
  have leading: "hd (render_nat (resp_status res)) = CHR ''0'' \<longrightarrow> resp_status res = 0"
    using render_nat_leading [of "resp_status res"] by blast
  from thrown returned numeral leading show ?thesis
    by blast
qed

theorem C8_witness:
  "fst (api (canned [(''/logs'', unavailable)]) ''/logs'' no_opts init_world) =
     Inl (Error ''503 Service Unavailable'')
   \<and> decimal_value ''503'' = 503
   \<and> fst (api (canned [(''/logs'', \<lparr> resp_status = 404, resp_statusText = ''Not Found'',
                                      resp_json = Inr Null \<rparr>)]) ''/logs'' no_opts init_world) =
     Inl (Error ''404 Not Found'')
   \<and> decimal_value ''404'' = 404
   \<and> (\<exists>res'. respond (canned [(''/agent/status'', ok_json (Obj []))]) (requests init_world)
                (fetch_request (canned [(''/agent/status'', ok_json (Obj []))]) ''/agent/status'' no_opts) =
                Response res' \<and>
              200 \<le> resp_status res' \<and> resp_status res' \<le> 299 \<and> resp_json res' = Inr (Obj []))"
proof -
  let ?en = "canned [(''/logs'', unavailable)]"
  let ?nf = "\<lparr> resp_status = 404, resp_statusText = ''Not Found'', resp_json = Inr Null \<rparr>"
  let ?en404 = "canned [(''/logs'', ?nf)]"
  let ?en' = "canned [(''/agent/status'', ok_json (Obj []))]"
  have h1: "respond ?en (requests init_world) (fetch_request ?en ''/logs'' no_opts) = Response unavailable
            \<and> (resp_status unavailable < 200 \<or> 299 < resp_status unavailable)"
    by (simp add: canned_def unavailable_def fetch_request_def BACKEND_URL_def)
  have h404: "respond ?en404 (requests init_world) (fetch_request ?en404 ''/logs'' no_opts) = Response ?nf
            \<and> (resp_status ?nf < 200 \<or> 299 < resp_status ?nf)"
    by (simp add: canned_def fetch_request_def BACKEND_URL_def)
  have h2: "fst (api ?en' ''/agent/status'' no_opts init_world) = Inr (Obj [])"
    by (simp add: api_eq api_outcome_def settle_def canned_def ok_json_def resp_ok_def
        fetch_request_def BACKEND_URL_def)
  have r503: "render_nat 503 = ''503''" and r404: "render_nat 404 = ''404''"
    by (simp_all add: render_nat_def decimal_digits.simps digit_char_def)
  note t1 = C8_api_failure_carries_status [of ?en init_world "''/logs''" no_opts unavailable]
  note t2 = C8_api_failure_carries_status [of ?en404 init_world "''/logs''" no_opts ?nf]
  from t1 h1 have "fst (api ?en ''/logs'' no_opts init_world) =
      Inl (Error (render_nat (resp_status unavailable) @ '' '' @ resp_statusText unavailable))
      \<and> decimal_value (render_nat (resp_status unavailable)) = resp_status unavailable"
    by blast
  then have c1: "fst (api ?en ''/logs'' no_opts init_world) = Inl (Error ''503 Service Unavailable'')"
    and d1: "decimal_value ''503'' = 503"
    by (simp_all add: unavailable_def r503)
  from t2 h404 have "fst (api ?en404 ''/logs'' no_opts init_world) =
      Inl (Error (render_nat (resp_status ?nf) @ '' '' @ resp_statusText ?nf))
      \<and> decimal_value (render_nat (resp_status ?nf)) = resp_status ?nf"
    by blast
  then have c3: "fst (api ?en404 ''/logs'' no_opts init_world) = Inl (Error ''404 Not Found'')"
    and d3: "decimal_value ''404'' = 404"
    by (simp_all add: r404)
  from C8_api_failure_carries_status [of ?en' init_world "''/agent/status''" no_opts _ "Obj []"] h2
  have c2: "\<exists>res'. respond ?en' (requests init_world) (fetch_request ?en' ''/agent/status'' no_opts) =
              Response res' \<and> 200 \<le> resp_status res' \<and> resp_status res' \<le> 299 \<and>
              resp_json res' = Inr (Obj [])"
    by blast
  from c1 d1 c3 d3 c2 show ?thesis by blast
qed

lemma canned_outcome:
  "api_outcome (canned table) history path os =
     (case map_of table path of
        None \<Rightarrow> Inl (TypeError ''Failed to fetch'')
      | Some r \<Rightarrow> settle (Response r))"
  by (simp add: api_outcome_def canned_def fetch_request_def BACKEND_URL_def split: option.splits)
    (simp add: settle_def)

lemma settle_ok_json: "settle (Response (ok_json v)) = Inr v"
  by (simp add: settle_def ok_json_def resp_ok_def)

lemma settle_unavailable: "settle (Response unavailable) = Inl (Error ''503 Service Unavailable'')"
  by (simp add: settle_def unavailable_def resp_ok_def render_nat_503)

lemmas canned_simps = canned_outcome settle_ok_json settle_unavailable

lemma refresh_queue_field:
  "gmailQueue (exec (pollGmail en) w) =
     (case api_outcome en (requests w) ''/gmail/poll'' no_opts of
        Inl e \<Rightarrow> Arr []
      | Inr res \<Rightarrow>
          (case read_prop en res ''items'' of
             Inl e \<Rightarrow> Arr []
           | Inr items \<Rightarrow> or_else items (Arr [])))"
  by (simp add: exec_def pollGmail_eq)

section \<open>Poller: a body without items\<close>



lemma block3_quiet:
  "quiet a \<Longrightarrow> quiet b \<Longrightarrow> quiet c \<Longrightarrow>
     block [a, b, c] w = (Inr (), exec c (exec b (exec a w)))"
  by (simp add: and_then_def resolved_def quiet_eq)

lemma exec_block3:
  "quiet a \<Longrightarrow> quiet b \<Longrightarrow> quiet c \<Longrightarrow> exec (block [a, b, c]) w = exec c (exec b (exec a w))"
  by (simp add: exec_def block3_quiet del: block.simps)

section \<open>Poller: a failure stays inside\<close>

text \<open>
  Claim C7. The queue poll always returns normally, so no failure of its request reaches
  the caller; when the request fails the stored queue becomes the empty array; and the
  calls that follow a poll still run: the sequence poll, summary and logs, status of
  the timer callback and the sequence summary and logs, poll, status of the actions
  each send all four of their requests, whatever the poll's request came to.
\<close>

theorem C7_poll_failure_contained:
  "fst (pollGmail en w) = Inr ()
   \<and> (api_outcome en (requests w) ''/gmail/poll'' no_opts = Inl e \<longrightarrow>
        gmailQueue (exec (pollGmail en) w) = Arr [])
   \<and> fst (block [pollGmail en, refreshAll en, loadAgentStatus en] w) = Inr ()
   \<and> requests (exec (block [pollGmail en, refreshAll en, loadAgentStatus en]) w) =
        requests w @ [fetch_request en ''/gmail/poll'' no_opts,
                      fetch_request en ''/analytics/summary'' no_opts,
                      fetch_request en ''/logs'' no_opts,
                      fetch_request en ''/agent/status'' no_opts]
   \<and> fst (block [refreshAll en, pollGmail en, loadAgentStatus en] w) = Inr ()
   \<and> requests (exec (block [refreshAll en, pollGmail en, loadAgentStatus en]) w) =
        requests w @ [fetch_request en ''/analytics/summary'' no_opts,
                      fetch_request en ''/logs'' no_opts,
                      fetch_request en ''/gmail/poll'' no_opts,
                      fetch_request en ''/agent/status'' no_opts]"
proof -
  have "fst (pollGmail en w) = Inr ()"
    by (simp add: pollGmail_eq)
  moreover have "api_outcome en (requests w) ''/gmail/poll'' no_opts = Inl e \<longrightarrow>
        gmailQueue (exec (pollGmail en) w) = Arr []"
    by (simp add: refresh_queue_field)
  moreover have "fst (block [pollGmail en, refreshAll en, loadAgentStatus en] w) = Inr ()"
    by (simp add: block3_quiet quiet_pollGmail quiet_refreshAll quiet_loadAgentStatus del: block.simps)
  moreover have "requests (exec (block [pollGmail en, refreshAll en, loadAgentStatus en]) w) =
        requests w @ [fetch_request en ''/gmail/poll'' no_opts,
                      fetch_request en ''/analytics/summary'' no_opts,
                      fetch_request en ''/logs'' no_opts,
                      fetch_request en ''/agent/status'' no_opts]"
    by (simp add: exec_block3 quiet_pollGmail quiet_refreshAll quiet_loadAgentStatus
        refreshAll_requests pollGmail_requests loadAgentStatus_requests del: block.simps)
  moreover have "fst (block [refreshAll en, pollGmail en, loadAgentStatus en] w) = Inr ()"
    by (simp add: block3_quiet quiet_pollGmail quiet_refreshAll quiet_loadAgentStatus del: block.simps)
  moreover have "requests (exec (block [refreshAll en, pollGmail en, loadAgentStatus en]) w) =
        requests w @ [fetch_request en ''/analytics/summary'' no_opts,
                      fetch_request en ''/logs'' no_opts,
                      fetch_request en ''/gmail/poll'' no_opts,
                      fetch_request en ''/agent/status'' no_opts]"
    by (simp add: exec_block3 quiet_pollGmail quiet_refreshAll quiet_loadAgentStatus
        refreshAll_requests pollGmail_requests loadAgentStatus_requests del: block.simps)
  ultimately show ?thesis by blast
qed

theorem C7_witness:
  "gmailQueue (exec (pollGmail (canned [(''/gmail/poll'', unavailable)]))
      (init_world\<lparr>gmailQueue := Arr [Str ''old'']\<rparr>)) = Arr []
   \<and> fst (pollGmail (canned [(''/gmail/poll'', unavailable)])
        (init_world\<lparr>gmailQueue := Arr [Str ''old'']\<rparr>)) = Inr ()
   \<and> map req_url (requests (exec (block [pollGmail (canned [(''/gmail/poll'', unavailable)]),
        refreshAll (canned [(''/gmail/poll'', unavailable)]),
        loadAgentStatus (canned [(''/gmail/poll'', unavailable)])])
        (init_world\<lparr>gmailQueue := Arr [Str ''old'']\<rparr>))) =
      [''http://localhost:8000/gmail/poll'', ''http://localhost:8000/analytics/summary'',
       ''http://localhost:8000/logs'', ''http://localhost:8000/agent/status'']"
proof -
  let ?en = "canned [(''/gmail/poll'', unavailable)]"
  let ?w = "init_world\<lparr>gmailQueue := Arr [Str ''old'']\<rparr>"
  have o: "api_outcome ?en (requests ?w) ''/gmail/poll'' no_opts = Inl (Error ''503 Service Unavailable'')"
    by (simp add: canned_simps)
  note c = C7_poll_failure_contained [of ?en ?w "Error ''503 Service Unavailable''"]
  from c o have c1: "gmailQueue (exec (pollGmail ?en) ?w) = Arr []" by blast
  from c have c2: "fst (pollGmail ?en ?w) = Inr ()" by blast
  from c have "requests (exec (block [pollGmail ?en, refreshAll ?en, loadAgentStatus ?en]) ?w) =
        requests ?w @ [fetch_request ?en ''/gmail/poll'' no_opts,
                      fetch_request ?en ''/analytics/summary'' no_opts,
                      fetch_request ?en ''/logs'' no_opts,
                      fetch_request ?en ''/agent/status'' no_opts]" by blast
  then have c3: "map req_url (requests (exec (block [pollGmail ?en, refreshAll ?en, loadAgentStatus ?en]) ?w)) =
      [''http://localhost:8000/gmail/poll'', ''http://localhost:8000/analytics/summary'',
       ''http://localhost:8000/logs'', ''http://localhost:8000/agent/status'']"
    by (simp add: init_world_def fetch_request_def BACKEND_URL_def canned_def)
  from c1 c2 c3 show ?thesis by blast
qed

lemma refreshAll_analytics:
  "analytics (exec (refreshAll en) w) =
     (case api_outcome en (requests w) ''/analytics/summary'' no_opts of
        Inl e \<Rightarrow> analytics w
      | Inr v \<Rightarrow> if truthy v then v else analytics w)"
  by (simp add: exec_def refreshAll_eq)

lemma refreshAll_logs:
  "logs (exec (refreshAll en) w) =
     (case api_outcome en (requests w @ [fetch_request en ''/analytics/summary'' no_opts])
             ''/logs'' no_opts of
        Inl e \<Rightarrow> Arr []
      | Inr v \<Rightarrow> if truthy v then v else logs w)"
  by (simp add: exec_def refreshAll_eq)

section \<open>Refresher: one failed fetch of the pair\<close>

text \<open>
  Claim C2, amended. A run of the combined refresh always returns normally. If the
  analytics fetch fails, the stored summary is left as it was. If the logs fetch fails,
  the stored log list becomes the empty array (the fallback \<^verbatim>\<open>[]\<close> of its
  \<^verbatim>\<open>catch\<close> is truthy and is stored). Whatever the other fetch does, a successful
  analytics response with a truthy body is stored as the summary and a successful logs
  response with a truthy body is stored as the log list.
\<close>

theorem C2_refresh_partial_failure:
  "fst (refreshAll en w) = Inr ()
   \<and> (api_outcome en (requests w) ''/analytics/summary'' no_opts = Inl e \<longrightarrow>
        analytics (exec (refreshAll en) w) = analytics w)
   \<and> (api_outcome en (requests w @ [fetch_request en ''/analytics/summary'' no_opts])
          ''/logs'' no_opts = Inl e' \<longrightarrow>
        logs (exec (refreshAll en) w) = Arr [])
   \<and> (api_outcome en (requests w) ''/analytics/summary'' no_opts = Inr v \<and> truthy v \<longrightarrow>
        analytics (exec (refreshAll en) w) = v)
   \<and> (api_outcome en (requests w @ [fetch_request en ''/analytics/summary'' no_opts])
          ''/logs'' no_opts = Inr v' \<and> truthy v' \<longrightarrow>
        logs (exec (refreshAll en) w) = v')"
  by (simp add: refreshAll_analytics refreshAll_logs refreshAll_eq)

text \<open>
  The claim as first stated fails: with a stored log list of one entry and a backend
  whose \<^verbatim>\<open>/logs\<close> answers 503, the refresh leaves an empty list behind.
\<close>

theorem C2_counterexample:
  "api_outcome (canned [(''/analytics/summary'', ok_json (Obj [(''total'', Num 1)])), (''/logs'', unavailable)])
      [fetch_request (canned [(''/analytics/summary'', ok_json (Obj [(''total'', Num 1)])), (''/logs'', unavailable)])
         ''/analytics/summary'' no_opts]
      ''/logs'' no_opts = Inl (Error ''503 Service Unavailable'')
   \<and> logs (init_world\<lparr>logs := Arr [Obj [(''_id'', Str ''t1'')]]\<rparr>) = Arr [Obj [(''_id'', Str ''t1'')]]
   \<and> logs (exec (refreshAll (canned [(''/analytics/summary'', ok_json (Obj [(''total'', Num 1)])), (''/logs'', unavailable)]))
        (init_world\<lparr>logs := Arr [Obj [(''_id'', Str ''t1'')]]\<rparr>)) = Arr []"
  by (simp add: refreshAll_logs canned_simps init_world_def)

theorem C2_witness:
  "analytics (exec (refreshAll (canned [(''/analytics/summary'', unavailable), (''/logs'', ok_json (Arr [Obj [(''_id'', Str ''t2'')]]))]))
      (init_world\<lparr>analytics := Obj [(''total'', Num 7)]\<rparr>)) = Obj [(''total'', Num 7)]
   \<and> logs (exec (refreshAll (canned [(''/analytics/summary'', unavailable), (''/logs'', ok_json (Arr [Obj [(''_id'', Str ''t2'')]]))]))
      (init_world\<lparr>analytics := Obj [(''total'', Num 7)]\<rparr>)) = Arr [Obj [(''_id'', Str ''t2'')]]
   \<and> logs (exec (refreshAll (canned [(''/analytics/summary'', ok_json (Obj [(''total'', Num 1)])), (''/logs'', unavailable)]))
      (init_world\<lparr>logs := Arr [Obj [(''_id'', Str ''t1'')]]\<rparr>)) = Arr []
   \<and> analytics (exec (refreshAll (canned [(''/analytics/summary'', ok_json (Obj [(''total'', Num 1)])), (''/logs'', unavailable)]))
      (init_world\<lparr>logs := Arr [Obj [(''_id'', Str ''t1'')]]\<rparr>)) = Obj [(''total'', Num 1)]"
proof -
  let ?e1 = "canned [(''/analytics/summary'', unavailable), (''/logs'', ok_json (Arr [Obj [(''_id'', Str ''t2'')]]))]"
  let ?w1 = "init_world\<lparr>analytics := Obj [(''total'', Num 7)]\<rparr>"
  let ?e2 = "canned [(''/analytics/summary'', ok_json (Obj [(''total'', Num 1)])), (''/logs'', unavailable)]"
  let ?w2 = "init_world\<lparr>logs := Arr [Obj [(''_id'', Str ''t1'')]]\<rparr>"
  have a1: "api_outcome ?e1 (requests ?w1) ''/analytics/summary'' no_opts = Inl (Error ''503 Service Unavailable'')"
    by (simp add: canned_simps)
  have l1: "api_outcome ?e1 (requests ?w1 @ [fetch_request ?e1 ''/analytics/summary'' no_opts]) ''/logs'' no_opts =
              Inr (Arr [Obj [(''_id'', Str ''t2'')]]) \<and> truthy (Arr [Obj [(''_id'', Str ''t2'')]])"
    by (simp add: canned_simps)
  have a2: "api_outcome ?e2 (requests ?w2) ''/analytics/summary'' no_opts = Inr (Obj [(''total'', Num 1)])
              \<and> truthy (Obj [(''total'', Num 1)])"
    by (simp add: canned_simps)
  have l2: "api_outcome ?e2 (requests ?w2 @ [fetch_request ?e2 ''/analytics/summary'' no_opts]) ''/logs'' no_opts =
              Inl (Error ''503 Service Unavailable'')"
    by (simp add: canned_simps)
  note t1 = C2_refresh_partial_failure [of ?e1 ?w1 "Error ''503 Service Unavailable''" _ _ "Arr [Obj [(''_id'', Str ''t2'')]]"]
  note t2 = C2_refresh_partial_failure [of ?e2 ?w2 _ "Error ''503 Service Unavailable''" "Obj [(''total'', Num 1)]"]
  from t1 a1 have c1: "analytics (exec (refreshAll ?e1) ?w1) = analytics ?w1" by blast
  from t1 l1 have c2: "logs (exec (refreshAll ?e1) ?w1) = Arr [Obj [(''_id'', Str ''t2'')]]" by blast
  from t2 l2 have c3: "logs (exec (refreshAll ?e2) ?w2) = Arr []" by blast
  from t2 a2 have c4: "analytics (exec (refreshAll ?e2) ?w2) = Obj [(''total'', Num 1)]" by blast
  from c1 have c1': "analytics (exec (refreshAll ?e1) ?w1) = Obj [(''total'', Num 7)]" by simp
  from c1' c2 c3 c4 show ?thesis by blast
qed

lemma refresh3_requests:
  "requests (exec (loadAgentStatus en) (exec (pollGmail en) (exec (refreshAll en) w))) =
     requests w @ [fetch_request en ''/analytics/summary'' no_opts,
                   fetch_request en ''/logs'' no_opts,
                   fetch_request en ''/gmail/poll'' no_opts,
                   fetch_request en ''/agent/status'' no_opts]"
  by (simp add: refreshAll_requests pollGmail_requests loadAgentStatus_requests)


lemma fetch_request_fields:
  "req_method (fetch_request en path os) = opt_method os"
  "req_body (fetch_request en path os) = opt_body os"
  "req_url (fetch_request en path os) = BACKEND_URL en @ path"
  by (simp_all add: fetch_request_def)

section \<open>Process next\<close>





section \<open>Bounded run-loop\<close>



lemma BACKEND_URL_canned: "BACKEND_URL (canned table) = ''http://localhost:8000''"
  by (simp add: BACKEND_URL_def canned_def)

section \<open>Actions whose primary call fails\<close>

text \<open>
  Claim C1, amended. When the primary request of seed, ingest, process-next or run-loop
  fails with the error \<open>e\<close>, the action returns normally, the status message it leaves
  is its failure prefix followed by the message of \<open>e\<close>, and the world is otherwise as
  before except for the one request sent: no refresh request follows, since the
  refresh calls sit inside the \<^verbatim>\<open>try\<close> after the primary call.
\<close>

theorem C1_failure_sets_status_without_refresh:
  "(api_outcome en (requests w) ''/seed/vendors'' (post_opts (Some (Arr []))) = Inl e \<longrightarrow>
      handleSeed en w =
        (Inr (),
         w\<lparr>requests := requests w @ [fetch_request en ''/seed/vendors'' (post_opts (Some (Arr [])))],
           statusMsg := ''Failed to seed: '' @ message e\<rparr>))
   \<and> (api_outcome en (requests w) ''/ingest/mock-email'' (post_opts (Some (form_json f))) = Inl e \<longrightarrow>
      handleIngest en f w =
        (Inr (),
         w\<lparr>requests := requests w @ [fetch_request en ''/ingest/mock-email'' (post_opts (Some (form_json f)))],
           statusMsg := ''Failed to ingest: '' @ message e\<rparr>))
   \<and> (api_outcome en (requests w) ''/agent/run-once'' (post_opts None) = Inl e \<longrightarrow>
      runOnce en showMsg w =
        (Inr (),
         w\<lparr>requests := requests w @ [fetch_request en ''/agent/run-once'' (post_opts None)],
           statusMsg := ''Process failed: '' @ message e\<rparr>))
   \<and> (api_outcome en (requests w) ''/agent/run-loop'' (post_opts (Some (Obj [(''max_steps'', Num n)]))) = Inl e \<longrightarrow>
      runLoop en n w =
        (Inr (),
         w\<lparr>requests := requests w @
             [fetch_request en ''/agent/run-loop'' (post_opts (Some (Obj [(''max_steps'', Num n)])))],
           statusMsg := ''Run-loop failed: '' @ message e\<rparr>))"
  by (simp add: handleSeed_eq handleIngest_eq runOnce_eq runLoop_eq)

text \<open>
  The claim as first stated fails: against a backend that answers 503 everywhere, seed
  leaves its failure message and has sent the seed request and nothing else.
\<close>

theorem C1_counterexample:
  "statusMsg (exec (handleSeed (canned [(''/seed/vendors'', unavailable), (''/analytics/summary'', unavailable),
       (''/logs'', unavailable), (''/agent/status'', unavailable)])) init_world) =
     ''Failed to seed: 503 Service Unavailable''
   \<and> map req_url (requests (exec (handleSeed (canned [(''/seed/vendors'', unavailable),
       (''/analytics/summary'', unavailable), (''/logs'', unavailable), (''/agent/status'', unavailable)])) init_world)) =
     [''http://localhost:8000/seed/vendors'']"
  by (simp add: exec_def handleSeed_eq canned_simps init_world_def fetch_request_fields
      BACKEND_URL_canned)

theorem C1_witness:
  "handleSeed (canned [(''/seed/vendors'', unavailable)]) init_world =
     (Inr (), init_world\<lparr>requests := requests init_world @
         [fetch_request (canned [(''/seed/vendors'', unavailable)]) ''/seed/vendors'' (post_opts (Some (Arr [])))],
        statusMsg := ''Failed to seed: '' @ message (Error ''503 Service Unavailable'')\<rparr>)
   \<and> handleIngest (canned [(''/seed/vendors'', unavailable)]) (form init_world) init_world =
     (Inr (), init_world\<lparr>requests := requests init_world @
         [fetch_request (canned [(''/seed/vendors'', unavailable)]) ''/ingest/mock-email''
            (post_opts (Some (form_json (form init_world))))],
        statusMsg := ''Failed to ingest: '' @ message (TypeError ''Failed to fetch'')\<rparr>)
   \<and> runOnce (canned [(''/seed/vendors'', unavailable)]) True init_world =
     (Inr (), init_world\<lparr>requests := requests init_world @
         [fetch_request (canned [(''/seed/vendors'', unavailable)]) ''/agent/run-once'' (post_opts None)],
        statusMsg := ''Process failed: '' @ message (TypeError ''Failed to fetch'')\<rparr>)
   \<and> runLoop (canned [(''/seed/vendors'', unavailable)]) 10 init_world =
     (Inr (), init_world\<lparr>requests := requests init_world @
         [fetch_request (canned [(''/seed/vendors'', unavailable)]) ''/agent/run-loop''
            (post_opts (Some (Obj [(''max_steps'', Num 10)])))],
        statusMsg := ''Run-loop failed: '' @ message (TypeError ''Failed to fetch'')\<rparr>)"
proof -
  let ?en = "canned [(''/seed/vendors'', unavailable)]"
  have o1: "api_outcome ?en (requests init_world) ''/seed/vendors'' (post_opts (Some (Arr []))) =
              Inl (Error ''503 Service Unavailable'')"
    by (simp add: canned_simps)
  have o2: "api_outcome ?en (requests init_world) ''/ingest/mock-email''
              (post_opts (Some (form_json (form init_world)))) = Inl (TypeError ''Failed to fetch'')"
    by (simp add: canned_simps)
  have o3: "api_outcome ?en (requests init_world) ''/agent/run-once'' (post_opts None) =
              Inl (TypeError ''Failed to fetch'')"
    by (simp add: canned_simps)
  have o4: "api_outcome ?en (requests init_world) ''/agent/run-loop''
              (post_opts (Some (Obj [(''max_steps'', Num 10)]))) = Inl (TypeError ''Failed to fetch'')"
    by (simp add: canned_simps)
  note t1 = C1_failure_sets_status_without_refresh
      [of ?en init_world "Error ''503 Service Unavailable''" "form init_world" True 10]
  note t2 = C1_failure_sets_status_without_refresh
      [of ?en init_world "TypeError ''Failed to fetch''" "form init_world" True 10]
  from t1 o1 have c1: "handleSeed ?en init_world =
     (Inr (), init_world\<lparr>requests := requests init_world @
         [fetch_request ?en ''/seed/vendors'' (post_opts (Some (Arr [])))],
        statusMsg := ''Failed to seed: '' @ message (Error ''503 Service Unavailable'')\<rparr>)"
    by blast
  from t2 o2 have c2: "handleIngest ?en (form init_world) init_world =
     (Inr (), init_world\<lparr>requests := requests init_world @
         [fetch_request ?en ''/ingest/mock-email'' (post_opts (Some (form_json (form init_world))))],
        statusMsg := ''Failed to ingest: '' @ message (TypeError ''Failed to fetch'')\<rparr>)"
    by blast
  from t2 o3 have c3: "runOnce ?en True init_world =
     (Inr (), init_world\<lparr>requests := requests init_world @
         [fetch_request ?en ''/agent/run-once'' (post_opts None)],
        statusMsg := ''Process failed: '' @ message (TypeError ''Failed to fetch'')\<rparr>)"
    by blast
  from t2 o4 have c4: "runLoop ?en 10 init_world =
     (Inr (), init_world\<lparr>requests := requests init_world @
         [fetch_request ?en ''/agent/run-loop'' (post_opts (Some (Obj [(''max_steps'', Num 10)])))],
        statusMsg := ''Run-loop failed: '' @ message (TypeError ''Failed to fetch'')\<rparr>)"
    by blast
  from c1 c2 c3 c4 show ?thesis by blast
qed

section \<open>Refresh after an action\<close>

text \<open>
  Claim C3, amended. When the primary request of an action succeeds and the action gets
  as far as its success message, it goes on to the refresh requests in one fixed
  relative order: analytics summary, logs, queue poll, status. Seed and ingest get
  there on every successful response; process-next gets there when \<^verbatim>\<open>processed\<close> can
  be read off the body (every body but \<^verbatim>\<open>null\<close>); run-loop gets there when
  \<^verbatim>\<open>processed\<close> can be read off the body and turned into a string for the message.
  Ingest, process-next and run-loop then send all four after their own request; seed
  sends analytics summary, logs and status, and no queue poll.
\<close>

theorem C3_refresh_order_after_success:
  "(api_outcome en (requests w) ''/seed/vendors'' (post_opts (Some (Arr []))) = Inr ack \<longrightarrow>
      requests (exec (handleSeed en) w) =
        requests w @ [fetch_request en ''/seed/vendors'' (post_opts (Some (Arr []))),
                      fetch_request en ''/analytics/summary'' no_opts,
                      fetch_request en ''/logs'' no_opts,
                      fetch_request en ''/agent/status'' no_opts])
   \<and> (api_outcome en (requests w) ''/ingest/mock-email'' (post_opts (Some (form_json f))) = Inr ack \<longrightarrow>
      requests (exec (handleIngest en f) w) =
        requests w @ [fetch_request en ''/ingest/mock-email'' (post_opts (Some (form_json f))),
                      fetch_request en ''/analytics/summary'' no_opts,
                      fetch_request en ''/logs'' no_opts,
                      fetch_request en ''/gmail/poll'' no_opts,
                      fetch_request en ''/agent/status'' no_opts])
   \<and> (api_outcome en (requests w) ''/agent/run-once'' (post_opts None) = Inr res
        \<and> read_prop en res ''processed'' = Inr p \<longrightarrow>
      requests (exec (runOnce en showMsg) w) =
        requests w @ [fetch_request en ''/agent/run-once'' (post_opts None),
                      fetch_request en ''/analytics/summary'' no_opts,
                      fetch_request en ''/logs'' no_opts,
                      fetch_request en ''/gmail/poll'' no_opts,
                      fetch_request en ''/agent/status'' no_opts])
   \<and> (api_outcome en (requests w) ''/agent/run-loop'' (post_opts (Some (Obj [(''max_steps'', Num n)]))) = Inr res
        \<and> read_prop en res ''processed'' = Inr p \<and> to_string en p = Inr shown \<longrightarrow>
      requests (exec (runLoop en n) w) =
        requests w @ [fetch_request en ''/agent/run-loop'' (post_opts (Some (Obj [(''max_steps'', Num n)]))),
                      fetch_request en ''/analytics/summary'' no_opts,
                      fetch_request en ''/logs'' no_opts,
                      fetch_request en ''/gmail/poll'' no_opts,
                      fetch_request en ''/agent/status'' no_opts])"
proof -
  have seed: "api_outcome en (requests w) ''/seed/vendors'' (post_opts (Some (Arr []))) = Inr ack \<longrightarrow>
      requests (exec (handleSeed en) w) =
        requests w @ [fetch_request en ''/seed/vendors'' (post_opts (Some (Arr []))),
                      fetch_request en ''/analytics/summary'' no_opts,
                      fetch_request en ''/logs'' no_opts,
                      fetch_request en ''/agent/status'' no_opts]"
    by (simp add: exec_def [of "handleSeed en"] handleSeed_eq refreshAll_requests loadAgentStatus_requests)
  have ingest: "api_outcome en (requests w) ''/ingest/mock-email'' (post_opts (Some (form_json f))) = Inr ack \<longrightarrow>
      requests (exec (handleIngest en f) w) =
        requests w @ [fetch_request en ''/ingest/mock-email'' (post_opts (Some (form_json f))),
                      fetch_request en ''/analytics/summary'' no_opts,
                      fetch_request en ''/logs'' no_opts,
                      fetch_request en ''/gmail/poll'' no_opts,
                      fetch_request en ''/agent/status'' no_opts]"
    by (simp add: exec_def [of "handleIngest en f"] handleIngest_eq refresh3_requests)
  have once: "api_outcome en (requests w) ''/agent/run-once'' (post_opts None) = Inr res
        \<and> read_prop en res ''processed'' = Inr p \<longrightarrow>
      requests (exec (runOnce en showMsg) w) =
        requests w @ [fetch_request en ''/agent/run-once'' (post_opts None),
                      fetch_request en ''/analytics/summary'' no_opts,
                      fetch_request en ''/logs'' no_opts,
                      fetch_request en ''/gmail/poll'' no_opts,
                      fetch_request en ''/agent/status'' no_opts]"
    by (simp add: exec_def [of "runOnce en showMsg"] runOnce_eq refresh3_requests)
  have loop: "api_outcome en (requests w) ''/agent/run-loop'' (post_opts (Some (Obj [(''max_steps'', Num n)]))) = Inr res
        \<and> read_prop en res ''processed'' = Inr p \<and> to_string en p = Inr shown \<longrightarrow>
      requests (exec (runLoop en n) w) =
        requests w @ [fetch_request en ''/agent/run-loop'' (post_opts (Some (Obj [(''max_steps'', Num n)]))),
                      fetch_request en ''/analytics/summary'' no_opts,
                      fetch_request en ''/logs'' no_opts,
                      fetch_request en ''/gmail/poll'' no_opts,
                      fetch_request en ''/agent/status'' no_opts]"
    by (simp add: exec_def [of "runLoop en n"] runLoop_eq refresh3_requests)
  from seed ingest once loop show ?thesis by blast
qed

text \<open>
  The claim as first stated fails: against a backend that answers every request, seed
  sends four requests and none of them is the queue poll.
\<close>

theorem C3_counterexample:
  "map req_url (requests (exec (handleSeed (canned [(''/seed/vendors'', ok_json (Obj [])),
       (''/analytics/summary'', ok_json (Obj [])), (''/logs'', ok_json (Arr [])),
       (''/gmail/poll'', ok_json (Obj [])), (''/agent/status'', ok_json (Obj []))])) init_world)) =
     [''http://localhost:8000/seed/vendors'', ''http://localhost:8000/analytics/summary'',
      ''http://localhost:8000/logs'', ''http://localhost:8000/agent/status'']"
  by (simp add: exec_def [of "handleSeed _"] handleSeed_eq canned_simps init_world_def
      refreshAll_requests loadAgentStatus_requests fetch_request_fields BACKEND_URL_canned)

theorem C3_witness:
  "requests (exec (handleSeed (canned [(''/seed/vendors'', ok_json (Obj [])),
        (''/ingest/mock-email'', ok_json (Obj [])),
        (''/agent/run-once'', ok_json (Obj [(''processed'', Bool True)])),
        (''/agent/run-loop'', ok_json (Obj [(''processed'', Num 2)]))])) init_world) =
     requests init_world @
       [fetch_request (canned [(''/seed/vendors'', ok_json (Obj [])),
          (''/ingest/mock-email'', ok_json (Obj [])),
          (''/agent/run-once'', ok_json (Obj [(''processed'', Bool True)])),
          (''/agent/run-loop'', ok_json (Obj [(''processed'', Num 2)]))]) ''/seed/vendors'' (post_opts (Some (Arr []))),
        fetch_request (canned [(''/seed/vendors'', ok_json (Obj [])),
          (''/ingest/mock-email'', ok_json (Obj [])),
          (''/agent/run-once'', ok_json (Obj [(''processed'', Bool True)])),
          (''/agent/run-loop'', ok_json (Obj [(''processed'', Num 2)]))]) ''/analytics/summary'' no_opts,
        fetch_request (canned [(''/seed/vendors'', ok_json (Obj [])),
          (''/ingest/mock-email'', ok_json (Obj [])),
          (''/agent/run-once'', ok_json (Obj [(''processed'', Bool True)])),
          (''/agent/run-loop'', ok_json (Obj [(''processed'', Num 2)]))]) ''/logs'' no_opts,
        fetch_request (canned [(''/seed/vendors'', ok_json (Obj [])),
          (''/ingest/mock-email'', ok_json (Obj [])),
          (''/agent/run-once'', ok_json (Obj [(''processed'', Bool True)])),
          (''/agent/run-loop'', ok_json (Obj [(''processed'', Num 2)]))]) ''/agent/status'' no_opts]
   \<and> map req_url (requests (exec (handleIngest (canned [(''/seed/vendors'', ok_json (Obj [])),
        (''/ingest/mock-email'', ok_json (Obj [])),
        (''/agent/run-once'', ok_json (Obj [(''processed'', Bool True)])),
        (''/agent/run-loop'', ok_json (Obj [(''processed'', Num 2)]))]) (form init_world)) init_world)) =
     [''http://localhost:8000/ingest/mock-email'', ''http://localhost:8000/analytics/summary'',
      ''http://localhost:8000/logs'', ''http://localhost:8000/gmail/poll'',
      ''http://localhost:8000/agent/status'']
   \<and> map req_url (requests (exec (runOnce (canned [(''/seed/vendors'', ok_json (Obj [])),
        (''/ingest/mock-email'', ok_json (Obj [])),
        (''/agent/run-once'', ok_json (Obj [(''processed'', Bool True)])),
        (''/agent/run-loop'', ok_json (Obj [(''processed'', Num 2)]))]) True) init_world)) =
     [''http://localhost:8000/agent/run-once'', ''http://localhost:8000/analytics/summary'',
      ''http://localhost:8000/logs'', ''http://localhost:8000/gmail/poll'',
      ''http://localhost:8000/agent/status'']
   \<and> map req_url (requests (exec (runLoop (canned [(''/seed/vendors'', ok_json (Obj [])),
        (''/ingest/mock-email'', ok_json (Obj [])),
        (''/agent/run-once'', ok_json (Obj [(''processed'', Bool True)])),
        (''/agent/run-loop'', ok_json (Obj [(''processed'', Num 2)]))]) 10) init_world)) =
     [''http://localhost:8000/agent/run-loop'', ''http://localhost:8000/analytics/summary'',
      ''http://localhost:8000/logs'', ''http://localhost:8000/gmail/poll'',
      ''http://localhost:8000/agent/status'']"
proof -
  let ?en = "canned [(''/seed/vendors'', ok_json (Obj [])),
        (''/ingest/mock-email'', ok_json (Obj [])),
        (''/agent/run-once'', ok_json (Obj [(''processed'', Bool True)])),
        (''/agent/run-loop'', ok_json (Obj [(''processed'', Num 2)]))]"
  have o1: "api_outcome ?en (requests init_world) ''/seed/vendors'' (post_opts (Some (Arr []))) = Inr (Obj [])"
    by (simp add: canned_simps)
  have o2: "api_outcome ?en (requests init_world) ''/ingest/mock-email''
              (post_opts (Some (form_json (form init_world)))) = Inr (Obj [])"
    by (simp add: canned_simps)
  have o3: "api_outcome ?en (requests init_world) ''/agent/run-once'' (post_opts None) =
              Inr (Obj [(''processed'', Bool True)])
            \<and> read_prop ?en (Obj [(''processed'', Bool True)]) ''processed'' = Inr (Bool True)"
    by (simp add: canned_simps read_prop_def)
  have o4: "api_outcome ?en (requests init_world) ''/agent/run-loop''
              (post_opts (Some (Obj [(''max_steps'', Num 10)]))) = Inr (Obj [(''processed'', Num 2)])
            \<and> read_prop ?en (Obj [(''processed'', Num 2)]) ''processed'' = Inr (Num 2)
            \<and> to_string ?en (Num 2) = Inr ''2''"
    by (simp add: canned_simps read_prop_def number_string_def render_int_def render_nat_def
        decimal_digits.simps digit_char_def)
  have n: "requests init_world = []"
    by (simp add: init_world_def)
  note t1 = C3_refresh_order_after_success
      [of ?en init_world "Obj []" "form init_world" "Obj [(''processed'', Bool True)]" "Bool True" True 10 "''2''"]
  note t2 = C3_refresh_order_after_success
      [of ?en init_world "Obj []" "form init_world" "Obj [(''processed'', Num 2)]" "Num 2" True 10 "''2''"]
  from t1 o1 have c1: "requests (exec (handleSeed ?en) init_world) =
     requests init_world @
       [fetch_request ?en ''/seed/vendors'' (post_opts (Some (Arr []))),
        fetch_request ?en ''/analytics/summary'' no_opts,
        fetch_request ?en ''/logs'' no_opts,
        fetch_request ?en ''/agent/status'' no_opts]"
    by blast
  from t1 o2 have "requests (exec (handleIngest ?en (form init_world)) init_world) =
     requests init_world @
       [fetch_request ?en ''/ingest/mock-email'' (post_opts (Some (form_json (form init_world)))),
        fetch_request ?en ''/analytics/summary'' no_opts,
        fetch_request ?en ''/logs'' no_opts,
        fetch_request ?en ''/gmail/poll'' no_opts,
        fetch_request ?en ''/agent/status'' no_opts]"
    by blast
  then have c2: "map req_url (requests (exec (handleIngest ?en (form init_world)) init_world)) =
     [''http://localhost:8000/ingest/mock-email'', ''http://localhost:8000/analytics/summary'',
      ''http://localhost:8000/logs'', ''http://localhost:8000/gmail/poll'',
      ''http://localhost:8000/agent/status'']"
    by (simp add: n fetch_request_fields BACKEND_URL_canned)
  from t1 o3 have "requests (exec (runOnce ?en True) init_world) =
     requests init_world @
       [fetch_request ?en ''/agent/run-once'' (post_opts None),
        fetch_request ?en ''/analytics/summary'' no_opts,
        fetch_request ?en ''/logs'' no_opts,
        fetch_request ?en ''/gmail/poll'' no_opts,
        fetch_request ?en ''/agent/status'' no_opts]"
    by blast
  then have c3: "map req_url (requests (exec (runOnce ?en True) init_world)) =
     [''http://localhost:8000/agent/run-once'', ''http://localhost:8000/analytics/summary'',
      ''http://localhost:8000/logs'', ''http://localhost:8000/gmail/poll'',
      ''http://localhost:8000/agent/status'']"
    by (simp add: n fetch_request_fields BACKEND_URL_canned)
  from t2 o4 have "requests (exec (runLoop ?en 10) init_world) =
     requests init_world @
       [fetch_request ?en ''/agent/run-loop'' (post_opts (Some (Obj [(''max_steps'', Num 10)]))),
        fetch_request ?en ''/analytics/summary'' no_opts,
        fetch_request ?en ''/logs'' no_opts,
        fetch_request ?en ''/gmail/poll'' no_opts,
        fetch_request ?en ''/agent/status'' no_opts]"
    by blast
  then have c4: "map req_url (requests (exec (runLoop ?en 10) init_world)) =
     [''http://localhost:8000/agent/run-loop'', ''http://localhost:8000/analytics/summary'',
      ''http://localhost:8000/logs'', ''http://localhost:8000/gmail/poll'',
      ''http://localhost:8000/agent/status'']"
    by (simp add: n fetch_request_fields BACKEND_URL_canned)
  from c1 c2 c3 c4 show ?thesis by blast
qed

lemmas refresh_orch = quiet_refreshAll [THEN quiet_orch] quiet_pollGmail [THEN quiet_orch]
  quiet_loadAgentStatus [THEN quiet_orch]

lemma orch_fields:
  "orch (w\<lparr>requests := rs\<rparr>) = orch w"
  "orch (w\<lparr>statusMsg := s\<rparr>) = orch w"
  "orch (w\<lparr>seeded := b\<rparr>) = orch w"
  "orch (w\<lparr>form := f\<rparr>) = orch w"
  by (simp_all add: orch_def)

lemma quiet_handleSeed: "quiet (handleSeed en)"
  unfolding quiet_def
  by (simp add: exec_def [of "handleSeed en"] handleSeed_eq refresh_orch orch_fields split: sum.splits)

lemma quiet_handleIngest: "quiet (handleIngest en f)"
  unfolding quiet_def
  by (simp add: exec_def [of "handleIngest en f"] handleIngest_eq refresh_orch orch_fields split: sum.splits)

lemma quiet_runOnce: "quiet (runOnce en showMsg)"
  unfolding quiet_def
  by (simp add: exec_def [of "runOnce en showMsg"] runOnce_eq refresh_orch orch_fields split: sum.splits)

lemma quiet_runLoop: "quiet (runLoop en n)"
  unfolding quiet_def
  by (simp add: exec_def [of "runLoop en n"] runLoop_eq refresh_orch orch_fields split: sum.splits)

lemmas quiet_ops = quiet_refreshAll quiet_pollGmail quiet_loadAgentStatus quiet_loadAgentMeta
  quiet_handleSeed quiet_handleIngest quiet_runOnce quiet_runLoop

lemma quiet_on_click: "m \<in> set (on_click en b w) \<Longrightarrow> quiet m"
  by (cases b) (auto simp: on_click_def handleProcess_def quiet_ops)

lemma quiet_tick: "m \<in> set (tick en) \<Longrightarrow> quiet m"
  by (auto simp: tick_def quiet_ops)

lemma orch_inv_orch: "orch w' = orch w \<Longrightarrow> orch_inv w' = orch_inv w"
  by (simp add: orch_def orch_inv_def cong: option.case_cong)

lemma orch_inv_setAutoRun: "orch_inv w \<Longrightarrow> orch_inv (setAutoRun b w)"
  by (auto simp: orch_inv_def setAutoRun_def autoRun_effect_def autoRun_cleanup_def
      clear_current_def clearInterval_def setInterval_def split: option.splits)

lemma timers_stop: "orch_inv w \<Longrightarrow> timers (setAutoRun False w) = {} \<and> \<not> autoRun (setAutoRun False w)"
  by (auto simp: orch_inv_def setAutoRun_def autoRun_effect_def autoRun_cleanup_def
      clear_current_def clearInterval_def setInterval_def split: option.splits)

lemma orch_inv_mount: "orch_inv (fst (mount en))"
  by (simp add: mount_def orch_inv_def autoRun_effect_def clear_current_def init_world_def)

lemma step_inv:
  assumes "step en ev (w, ts) = Some (w', ts')"
      and "orch_inv w"
      and "\<forall>t\<in>set ts. \<forall>m\<in>set t. quiet m"
  shows "orch_inv w' \<and> (\<forall>t\<in>set ts'. \<forall>m\<in>set t. quiet m)"
proof (cases ev)
  case (Click b)
  with assms show ?thesis
    by (cases b) (auto simp: orch_inv_setAutoRun dest: quiet_on_click)
next
  case (EditFromEmail s)
  with assms show ?thesis
    by (auto simp: setForm_def orch_inv_orch [OF orch_fields(4)])
next
  case (EditSubject s)
  with assms show ?thesis
    by (auto simp: setForm_def orch_inv_orch [OF orch_fields(4)])
next
  case (EditBody s)
  with assms show ?thesis
    by (auto simp: setForm_def orch_inv_orch [OF orch_fields(4)])
next
  case (TimerFires h)
  with assms show ?thesis
    by (auto split: if_splits dest: quiet_tick)
next
  case (Resume k)
  with assms(1) have k: "k < length ts"
    by (simp split: if_splits)
  from Resume assms(1) k obtain m ms where t: "ts ! k = m # ms"
    by (cases "ts ! k") auto
  from k t assms(3) have qm: "quiet m" and qms: "\<forall>x\<in>set ms. quiet x"
    by (metis nth_mem list.set_intros(1), metis nth_mem list.set_intros(2))
  from qm have mw: "m w = (Inr (), exec m w)"
    by (rule quiet_eq)
  from Resume assms(1) k t mw have w': "w' = exec m w" and ts': "ts' = ts[k := ms]"
    by simp_all
  from qm assms(2) have "orch_inv (exec m w)"
    by (simp add: orch_inv_orch [OF quiet_orch])
  moreover have "\<forall>t\<in>set (ts[k := ms]). \<forall>x\<in>set t. quiet x"
    using assms(3) qms set_update_subset_insert [of ts k ms] by auto
  ultimately show ?thesis
    by (simp add: w' ts')
qed

lemma reachable_inv:
  "reachable en s \<Longrightarrow> orch_inv (fst s) \<and> (\<forall>t\<in>set (snd s). \<forall>m\<in>set t. quiet m)"
proof (induction rule: reachable.induct)
  case mounted
  show ?case
    by (simp add: orch_inv_mount) (simp add: mount_def quiet_ops)
next
  case (stepped s ev s')
  then show ?case
    using step_inv [of en ev "fst s" "snd s" "fst s'" "snd s'"] by simp
qed

lemma exec_block_Cons: "quiet m \<Longrightarrow> exec (block (m # ms)) w = exec (block ms) (exec m w)"
  by (simp add: exec_def [of "and_then m (\<lambda>u. block ms)"] exec_def [of "block ms"] and_then_def quiet_eq)

lemma block_returns: "\<forall>m\<in>set ms. quiet m \<Longrightarrow> fst (block ms w) = Inr ()"
  by (induction ms arbitrary: w) (simp_all add: resolved_def and_then_def quiet_eq)

lemma resume_all:
  "k < length ts \<Longrightarrow> ts ! k = t \<Longrightarrow> \<forall>m\<in>set t. quiet m \<Longrightarrow>
     run en (replicate (length t) (Resume k)) (w, ts) = Some (exec (block t) w, ts[k := []])"
proof (induction t arbitrary: w ts)
  case Nil
  then show ?case
    by (simp add: exec_def resolved_def) (metis list_update_id)
next
  case (Cons m ms)
  from Cons.prems have qm: "quiet m" and qms: "\<forall>x\<in>set ms. quiet x"
    by simp_all
  from Cons.prems qm have st: "step en (Resume k) (w, ts) = Some (exec m w, ts[k := ms])"
    by (simp add: quiet_eq)
  from Cons.prems have k': "k < length (ts[k := ms])" and t': "ts[k := ms] ! k = ms"
    by simp_all
  from Cons.IH [OF k' t' qms, of "exec m w"]
  have "run en (replicate (length ms) (Resume k)) (exec m w, ts[k := ms]) =
          Some (exec (block ms) (exec m w), ts[k := []])"
    by simp
  with st qm show ?case
    by (simp add: exec_block_Cons del: block.simps step.simps)
qed

lemma step_stopped:
  assumes "step en ev (w, ts) = Some (w', ts')"
      and "ev \<noteq> Click StartAutoBtn"
      and "timers w = {}" and "\<not> autoRun w"
      and "\<forall>t\<in>set ts. \<forall>m\<in>set t. quiet m"
  shows "(\<forall>h. ev \<noteq> TimerFires h) \<and> timers w' = {} \<and> \<not> autoRun w'"
proof (cases ev)
  case (Click b)
  with assms show ?thesis
    by (cases b) (auto simp: setAutoRun_def)
next
  case (EditFromEmail s)
  with assms show ?thesis
    by (auto simp: setForm_def)
next
  case (EditSubject s)
  with assms show ?thesis
    by (auto simp: setForm_def)
next
  case (EditBody s)
  with assms show ?thesis
    by (auto simp: setForm_def)
next
  case (TimerFires h)
  with assms show ?thesis
    by simp
next
  case (Resume k)
  with assms(1) have k: "k < length ts"
    by (simp split: if_splits)
  from Resume assms(1) k obtain m ms where t: "ts ! k = m # ms"
    by (cases "ts ! k") auto
  from k t assms(5) have qm: "quiet m"
    by (metis nth_mem list.set_intros(1))
  from Resume assms(1) k t quiet_eq [OF qm, of w] have w': "w' = exec m w"
    by simp
  from quiet_orch [OF qm, of w] assms(3,4) show ?thesis
    by (simp add: w' orch_def Resume)
qed

lemma no_ticks:
  "run en evs (w, ts) = Some s' \<Longrightarrow> Click StartAutoBtn \<notin> set evs \<Longrightarrow>
   timers w = {} \<Longrightarrow> \<not> autoRun w \<Longrightarrow> orch_inv w \<Longrightarrow> \<forall>t\<in>set ts. \<forall>m\<in>set t. quiet m \<Longrightarrow>
     (\<forall>h. TimerFires h \<notin> set evs) \<and> timers (fst s') = {}"
proof (induction evs arbitrary: w ts)
  case Nil
  then show ?case by auto
next
  case (Cons ev evs)
  from Cons.prems(1) obtain w1 ts1 where st: "step en ev (w, ts) = Some (w1, ts1)"
    and rn: "run en evs (w1, ts1) = Some s'"
    by (cases "step en ev (w, ts)") auto
  from Cons.prems(2) have ne: "ev \<noteq> Click StartAutoBtn" and rest: "Click StartAutoBtn \<notin> set evs"
    by auto
  from step_stopped [OF st ne Cons.prems(3,4,6)]
  have a: "\<forall>h. ev \<noteq> TimerFires h" and b: "timers w1 = {}" and c: "\<not> autoRun w1"
    by simp_all
  from step_inv [OF st Cons.prems(5,6)]
  have d: "orch_inv w1" and e: "\<forall>t\<in>set ts1. \<forall>m\<in>set t. quiet m"
    by simp_all
  from Cons.IH [OF rn rest b c d e] a show ?case
    by auto
qed

lemma tick_requests:
  "requests (exec (block (tick en)) w) =
     requests (exec (runOnce en False) w) @
       [fetch_request en ''/gmail/poll'' no_opts,
        fetch_request en ''/analytics/summary'' no_opts,
        fetch_request en ''/logs'' no_opts,
        fetch_request en ''/agent/status'' no_opts]"
proof -
  have "exec (block (tick en)) w =
          exec (block [pollGmail en, refreshAll en, loadAgentStatus en]) (exec (runOnce en False) w)"
    unfolding tick_def by (rule exec_block_Cons [OF quiet_runOnce])
  then show ?thesis
    by (simp add: exec_block3 quiet_pollGmail quiet_refreshAll quiet_loadAgentStatus
        refreshAll_requests pollGmail_requests loadAgentStatus_requests del: block.simps)
qed

lemma card_timers: "orch_inv w \<Longrightarrow> card (timers w) \<le> 1 \<and> (autoRun w \<longrightarrow> card (timers w) = 1)"
  by (auto simp: orch_inv_def split: option.splits)

lemma effect_again:
  "orch_inv w \<Longrightarrow> autoRun w \<Longrightarrow>
     timers (clear_current w) = {} \<and> timers (autoRun_effect w) = {next_handle w} \<and>
     intervalRef (autoRun_effect w) = Some (next_handle w) \<and> intervalRef w \<noteq> Some (next_handle w)"
  by (auto simp: orch_inv_def autoRun_effect_def clear_current_def clearInterval_def
      setInterval_def split: option.splits)

lemma unmount_timers: "orch_inv w \<Longrightarrow> timers (unmount w) = {}"
  by (auto simp: orch_inv_def unmount_def autoRun_cleanup_def clear_current_def clearInterval_def
      split: option.splits)

section \<open>The automatic cycle: one timer, held exactly while auto-run is on\<close>

text \<open>
  Claim C4. A commit (the state change, the cleanup of the last effect, the effect) is
  one turn of the event loop. In every state the console can reach from its mount by
  clicks, edits, timer firings and resumptions of calls under way: the ref holds a
  handle if and only if \<^verbatim>\<open>autoRun\<close> is on; the browser holds that handle and no other,
  so at most one timer is armed, and exactly one while \<^verbatim>\<open>autoRun\<close> is on. Starting the
  cycle while it is on changes nothing (the effect depends on \<^verbatim>\<open>[autoRun]\<close>), so one
  trigger remains; and should the effect body run again while the cycle is on, it first
  clears the handle in the ref, leaving no timer, and then arms one fresh timer,
  different from the old one. Leaving the page leaves no timer armed.
\<close>

theorem C4_one_timer_iff_autoRun:
  assumes "reachable en (w, ts)"
  shows "(intervalRef w \<noteq> None) = autoRun w
    \<and> timers w = (case intervalRef w of None \<Rightarrow> {} | Some h \<Rightarrow> {h})
    \<and> card (timers w) \<le> 1
    \<and> (autoRun w \<longrightarrow> card (timers w) = 1)
    \<and> (autoRun w \<longrightarrow> setAutoRun True w = w)
    \<and> (autoRun w \<longrightarrow>
         timers (clear_current w) = {} \<and> timers (autoRun_effect w) = {next_handle w} \<and>
         intervalRef (autoRun_effect w) = Some (next_handle w) \<and>
         intervalRef w \<noteq> Some (next_handle w))
    \<and> timers (unmount w) = {}"
proof -
  from reachable_inv [OF assms] have inv: "orch_inv w"
    by simp
  from inv have "(intervalRef w \<noteq> None) = autoRun w"
    and "timers w = (case intervalRef w of None \<Rightarrow> {} | Some h \<Rightarrow> {h})"
    by (simp_all add: orch_inv_def)
  moreover note card_timers [OF inv] unmount_timers [OF inv]
  moreover have "autoRun w \<longrightarrow> setAutoRun True w = w"
    by (simp add: setAutoRun_def)
  moreover have "autoRun w \<longrightarrow>
         timers (clear_current w) = {} \<and> timers (autoRun_effect w) = {next_handle w} \<and>
         intervalRef (autoRun_effect w) = Some (next_handle w) \<and>
         intervalRef w \<noteq> Some (next_handle w)"
    using effect_again [OF inv] by blast
  ultimately show ?thesis
    by blast
qed

lemma started_world:
  "setAutoRun True (fst (mount en)) = init_world\<lparr>autoRun := True, intervalRef := Some 1, timers := {1}, next_handle := 2\<rparr>"
  by (simp add: mount_def setAutoRun_def autoRun_effect_def autoRun_cleanup_def clear_current_def
      setInterval_def init_world_def)

lemma started_reachable:
  "reachable en (setAutoRun True (fst (mount en)), snd (mount en))"
  by (rule reachable.stepped [OF reachable.mounted, of _ "Click StartAutoBtn"]) (simp add: mount_def)

theorem C4_witness:
  "card (timers (setAutoRun True (fst (mount (canned []))))) = 1
   \<and> setAutoRun True (setAutoRun True (fst (mount (canned [])))) = setAutoRun True (fst (mount (canned [])))
   \<and> timers (autoRun_effect (setAutoRun True (fst (mount (canned []))))) = {2}
   \<and> timers (unmount (setAutoRun True (fst (mount (canned []))))) = {}"
proof -
  let ?w = "setAutoRun True (fst (mount (canned [])))"
  have a: "autoRun ?w"
    by (simp add: started_world)
  have n: "next_handle ?w = 2"
    by (simp add: started_world)
  note t = C4_one_timer_iff_autoRun [OF started_reachable [of "canned []"]]
  from t a have c1: "card (timers ?w) = 1" by blast
  from t a have c2: "setAutoRun True ?w = ?w" by blast
  from t a have "timers (autoRun_effect ?w) = {next_handle ?w}" by blast
  with n have c3: "timers (autoRun_effect ?w) = {2}" by simp
  from t have c4: "timers (unmount ?w) = {}" by blast
  from c1 c2 c3 c4 show ?thesis by blast
qed

section \<open>The automatic cycle: stopping\<close>

text \<open>
  Claim C9. Take any reachable state and click Stop Auto. The click is always possible
  and touches no call under way. Afterwards the browser holds no timer, so no timer
  firing is possible in the state reached; and along every sequence of events from
  there that does not start the cycle again, no timer fires and the browser still holds
  no timer at the end. Every call under way at the moment of stopping, a tick among
  them, can still be resumed step by step to its end: none of its remaining steps
  throws, and resuming it as many times as it has steps left runs exactly those steps
  in order. For a tick that had just fired, these are the run-once step followed by
  the queue poll, the summary and logs fetches and the status fetch.
\<close>

theorem C9_stop_cancels_timer_keeps_tick:
  assumes "reachable en (w, ts)"
  shows "step en (Click StopAutoBtn) (w, ts) = Some (setAutoRun False w, ts)
    \<and> timers (setAutoRun False w) = {}
    \<and> (\<forall>h. step en (TimerFires h) (setAutoRun False w, ts) = None)
    \<and> (\<forall>evs s'. run en evs (setAutoRun False w, ts) = Some s' \<and> Click StartAutoBtn \<notin> set evs \<longrightarrow>
          (\<forall>h. TimerFires h \<notin> set evs) \<and> timers (fst s') = {})
    \<and> (\<forall>k. k < length ts \<longrightarrow>
          fst (block (ts ! k) (setAutoRun False w)) = Inr () \<and>
          run en (replicate (length (ts ! k)) (Resume k)) (setAutoRun False w, ts) =
            Some (exec (block (ts ! k)) (setAutoRun False w), ts[k := []]))
    \<and> (\<forall>k. k < length ts \<and> ts ! k = tick en \<longrightarrow>
          requests (exec (block (ts ! k)) (setAutoRun False w)) =
            requests (exec (runOnce en False) (setAutoRun False w)) @
              [fetch_request en ''/gmail/poll'' no_opts,
               fetch_request en ''/analytics/summary'' no_opts,
               fetch_request en ''/logs'' no_opts,
               fetch_request en ''/agent/status'' no_opts])"
proof -
  from reachable_inv [OF assms] have inv: "orch_inv w" and q: "\<forall>t\<in>set ts. \<forall>m\<in>set t. quiet m"
    by simp_all
  note stop = timers_stop [OF inv]
  have inv': "orch_inv (setAutoRun False w)"
    using inv by (rule orch_inv_setAutoRun)
  have a: "step en (Click StopAutoBtn) (w, ts) = Some (setAutoRun False w, ts)"
    by simp
  have b: "\<forall>h. step en (TimerFires h) (setAutoRun False w, ts) = None"
    using stop by simp
  have c: "\<forall>evs s'. run en evs (setAutoRun False w, ts) = Some s' \<and> Click StartAutoBtn \<notin> set evs \<longrightarrow>
          (\<forall>h. TimerFires h \<notin> set evs) \<and> timers (fst s') = {}"
    using no_ticks [OF _ _ _ _ inv' q] stop by blast
  have d: "\<forall>k. k < length ts \<longrightarrow>
          fst (block (ts ! k) (setAutoRun False w)) = Inr () \<and>
          run en (replicate (length (ts ! k)) (Resume k)) (setAutoRun False w, ts) =
            Some (exec (block (ts ! k)) (setAutoRun False w), ts[k := []])"
  proof (intro allI impI)
    fix k
    assume k: "k < length ts"
    from q nth_mem [OF k] have qk: "\<forall>m\<in>set (ts ! k). quiet m"
      by blast
    from block_returns [OF qk] resume_all [OF k refl qk]
    show "fst (block (ts ! k) (setAutoRun False w)) = Inr () \<and>
          run en (replicate (length (ts ! k)) (Resume k)) (setAutoRun False w, ts) =
            Some (exec (block (ts ! k)) (setAutoRun False w), ts[k := []])"
      by blast
  qed
  have e: "\<forall>k. k < length ts \<and> ts ! k = tick en \<longrightarrow>
          requests (exec (block (ts ! k)) (setAutoRun False w)) =
            requests (exec (runOnce en False) (setAutoRun False w)) @
              [fetch_request en ''/gmail/poll'' no_opts,
               fetch_request en ''/analytics/summary'' no_opts,
               fetch_request en ''/logs'' no_opts,
               fetch_request en ''/agent/status'' no_opts]"
    by (simp add: tick_requests del: block.simps)
  from a stop b c d e show ?thesis
    by blast
qed

lemma ticking_reachable:
  "reachable en (setAutoRun True (fst (mount en)), snd (mount en) @ [tick en])"
  by (rule reachable.stepped [OF started_reachable, of _ "TimerFires 1"]) (simp add: started_world)

theorem C9_witness:
  "timers (setAutoRun False (setAutoRun True (fst (mount (canned []))))) = {}
   \<and> step (canned []) (TimerFires 1)
        (setAutoRun False (setAutoRun True (fst (mount (canned [])))),
         snd (mount (canned [])) @ [tick (canned [])]) = None
   \<and> run (canned []) (replicate 4 (Resume 3))
        (setAutoRun False (setAutoRun True (fst (mount (canned [])))),
         snd (mount (canned [])) @ [tick (canned [])]) =
      Some (exec (block (tick (canned [])))
              (setAutoRun False (setAutoRun True (fst (mount (canned []))))),
            (snd (mount (canned [])) @ [tick (canned [])])[3 := []])
   \<and> map req_url (requests (exec (block (tick (canned [])))
        (setAutoRun False (setAutoRun True (fst (mount (canned []))))))) =
      [''http://localhost:8000/agent/run-once'', ''http://localhost:8000/gmail/poll'',
       ''http://localhost:8000/analytics/summary'', ''http://localhost:8000/logs'',
       ''http://localhost:8000/agent/status'']
   \<and> timers (fst (setAutoRun False (setAutoRun True (fst (mount (canned [])))),
         snd (mount (canned [])) @ [tick (canned [])] @ [on_click (canned []) SeedBtn
           (setAutoRun False (setAutoRun True (fst (mount (canned [])))))])) = {}"
proof -
  let ?en = "canned []"
  let ?w = "setAutoRun True (fst (mount ?en))"
  let ?ts = "snd (mount ?en) @ [tick ?en]"
  let ?w' = "setAutoRun False ?w"
  note t = C9_stop_cancels_timer_keeps_tick [OF ticking_reachable [of ?en]]
  have len: "length ?ts = 4" and k: "3 < length ?ts" and tk: "?ts ! 3 = tick ?en"
    and l4: "length (tick ?en) = 4"
    by (simp_all add: mount_def tick_def)
  have stopped: "?w' = init_world\<lparr>autoRun := False, intervalRef := None, timers := {}, next_handle := 2\<rparr>"
    by (simp only: started_world)
      (simp add: setAutoRun_def autoRun_effect_def autoRun_cleanup_def
        clear_current_def clearInterval_def)
  from t have c1: "timers ?w' = {}" by blast
  from t have c2: "step ?en (TimerFires 1) (?w', ?ts) = None" by blast
  from t k have "run ?en (replicate (length (?ts ! 3)) (Resume 3)) (?w', ?ts) =
            Some (exec (block (?ts ! 3)) ?w', ?ts[3 := []])"
    by blast
  then have c3: "run ?en (replicate 4 (Resume 3)) (?w', ?ts) =
            Some (exec (block (tick ?en)) ?w', ?ts[3 := []])"
    by (simp only: tk l4)
  have once: "requests (exec (runOnce ?en False) ?w') =
     [fetch_request ?en ''/agent/run-once'' (post_opts None)]"
    by (simp add: exec_def [of "runOnce _ _"] runOnce_eq canned_simps stopped init_world_def)
  from t k tk have "requests (exec (block (?ts ! 3)) ?w') =
            requests (exec (runOnce ?en False) ?w') @
              [fetch_request ?en ''/gmail/poll'' no_opts,
               fetch_request ?en ''/analytics/summary'' no_opts,
               fetch_request ?en ''/logs'' no_opts,
               fetch_request ?en ''/agent/status'' no_opts]"
    by blast
  then have c4: "map req_url (requests (exec (block (tick ?en)) ?w')) =
      [''http://localhost:8000/agent/run-once'', ''http://localhost:8000/gmail/poll'',
       ''http://localhost:8000/analytics/summary'', ''http://localhost:8000/logs'',
       ''http://localhost:8000/agent/status'']"
    by (simp only: tk once) (simp add: fetch_request_fields BACKEND_URL_canned)
  have r: "run ?en [Click SeedBtn] (?w', ?ts) = Some (?w', ?ts @ [on_click ?en SeedBtn ?w'])
           \<and> Click StartAutoBtn \<notin> set [Click SeedBtn]"
    by simp
  from t r have "timers (fst (?w', ?ts @ [on_click ?en SeedBtn ?w'])) = {}"
    by blast
  then have c5: "timers (fst (?w', snd (mount ?en) @ [tick ?en] @ [on_click ?en SeedBtn ?w'])) = {}"
    by simp
  from c1 c2 c3 c4 c5 show ?thesis by blast
qed

end
